theory Spec2Isabelle
  imports Main "HOL-Library.Sublist"
begin

section \<open>Strings, dates and the values the monitor works on\<close>

text \<open>
  A Python \<open>str\<close> is a sequence of Unicode code points, and \<open>len\<close> counts code points.
  The board is Korean, so a string is modelled as the list of its code points, not as a
  list of bytes. ASCII literals of the source are written through \<open>ascii\<close>; Korean
  literals are written as their code points.
\<close>

type_synonym ustring = "nat list"

definition ascii :: "string \<Rightarrow> ustring" where
  "ascii s = map of_char s"

text \<open>\<open>a in b\<close> on two strings: \<open>a\<close> occurs in \<open>b\<close> as a contiguous run.\<close>

fun str_in :: "ustring \<Rightarrow> ustring \<Rightarrow> bool" where
  "str_in a [] = (a = [])"
| "str_in a (y # ys) = (prefix a (y # ys) \<or> str_in a ys)"

text \<open>\<open>s.startswith(p)\<close>.\<close>

definition startswith :: "ustring \<Rightarrow> ustring \<Rightarrow> bool" where
  "startswith s p = prefix p s"

text \<open>
  \<open>s.isdigit()\<close>: the string is not empty and every code point is a digit. Which code
  points are digits is a table of the Unicode database, taken as the parameter \<open>dig\<close>.
\<close>

definition isdigit :: "(nat \<Rightarrow> bool) \<Rightarrow> ustring \<Rightarrow> bool" where
  "isdigit dig s = (s \<noteq> [] \<and> list_all dig s)"

text \<open>Values a caller may hand to a method that expects a string.\<close>

datatype pyval = PStr ustring | PNone | PInt int

datatype exn = TypeError | ParserRejectedMarkup

definition py_in :: "ustring \<Rightarrow> pyval \<Rightarrow> exn + bool" where
  "py_in a v = (case v of PStr s \<Rightarrow> Inr (str_in a s) | PNone \<Rightarrow> Inl TypeError | PInt i \<Rightarrow> Inl TypeError)"

subsection \<open>The clock\<close>

record datetime =
  year :: nat
  month :: nat
  day :: nat
  hour :: nat
  minute :: nat
  second :: nat
  microsecond :: nat

text \<open>The fields of a value returned by \<open>datetime.now()\<close> lie in these ranges.\<close>

definition valid_datetime :: "datetime \<Rightarrow> bool" where
  "valid_datetime t =
     (1 \<le> year t \<and> year t \<le> 9999 \<and> 1 \<le> month t \<and> month t \<le> 12 \<and> 1 \<le> day t \<and> day t \<le> 31
      \<and> hour t < 24 \<and> minute t < 60 \<and> second t < 60 \<and> microsecond t < 1000000)"

definition dg :: "nat \<Rightarrow> nat" where
  "dg n = 48 + n mod 10"

definition pad2 :: "nat \<Rightarrow> ustring" where
  "pad2 n = [dg (n div 10), dg n]"

definition pad4 :: "nat \<Rightarrow> ustring" where
  "pad4 n = [dg (n div 1000), dg (n div 100), dg (n div 10), dg n]"

definition pad6 :: "nat \<Rightarrow> ustring" where
  "pad6 n = [dg (n div 100000), dg (n div 10000), dg (n div 1000), dg (n div 100), dg (n div 10), dg n]"

text \<open>\<open>strftime('%Y-%m-%d')\<close>.\<close>

definition strftime_ymd :: "datetime \<Rightarrow> ustring" where
  "strftime_ymd t = pad4 (year t) @ [45] @ pad2 (month t) @ [45] @ pad2 (day t)"

text \<open>\<open>strftime('%Y-%m-%d %H:%M:%S')\<close>.\<close>

definition strftime_ymd_hms :: "datetime \<Rightarrow> ustring" where
  "strftime_ymd_hms t =
     strftime_ymd t @ [32] @ pad2 (hour t) @ [58] @ pad2 (minute t) @ [58] @ pad2 (second t)"

text \<open>\<open>isoformat()\<close>: the fraction is printed only when the microseconds are not zero.\<close>

definition isoformat :: "datetime \<Rightarrow> ustring" where
  "isoformat t =
     strftime_ymd t @ [84] @ pad2 (hour t) @ [58] @ pad2 (minute t) @ [58] @ pad2 (second t)
       @ (if microsecond t = 0 then [] else [46] @ pad6 (microsecond t))"

section \<open>The monitor object\<close>

text \<open>
  The fields \<open>self.url\<close>, \<open>self.webhook_url\<close> and \<open>self.keywords\<close> of the class
  \<open>SeoulMetroMonitor\<close>, and its constructor. The keywords, in the order of the source:
  U+D2B9 U+C815 SP U+C7A5 U+C560 U+C778 SP U+B2E8 U+CCB4 SP U+C9D1 U+D68C U+C2DC U+C704,
  then U+C7A5 U+C560 U+C778 (jang-ae-in), U+C9D1 U+D68C (jip-hoe), U+C2DC U+C704 (si-wi).
\<close>

record monitor =
  self_url :: ustring
  self_webhook_url :: ustring
  self_keywords :: "ustring list"

definition SeoulMetroMonitor :: "ustring \<Rightarrow> monitor" where
  "SeoulMetroMonitor webhook_url =
     \<lparr>self_url = ascii ''http://www.seoulmetro.co.kr/kr/board.do?menuIdx=546'',
      self_webhook_url = webhook_url,
      self_keywords =
        [[53945, 51221, 32, 51109, 50528, 51064, 32, 45800, 52404, 32, 51665, 54924, 49884, 50948],
         [51109, 50528, 51064],
         [51665, 54924],
         [49884, 50948]]\<rparr>"

section \<open>Filter: keyword matcher and today check\<close>

text \<open>
  \<open>check_keywords\<close>. \<open>str.lower\<close> belongs to the Python runtime and is the parameter
  \<open>lower\<close>. The \<open>for\<close> loop over the keywords returns at the first hit.
\<close>

fun check_keywords_loop ::
  "(ustring \<Rightarrow> ustring) \<Rightarrow> ustring \<Rightarrow> ustring list \<Rightarrow> bool \<times> ustring option" where
  "check_keywords_loop lower title_lower [] = (False, None)"
| "check_keywords_loop lower title_lower (keyword # rest) =
     (if str_in (lower keyword) title_lower then (True, Some keyword)
      else check_keywords_loop lower title_lower rest)"

definition check_keywords ::
  "(ustring \<Rightarrow> ustring) \<Rightarrow> monitor \<Rightarrow> ustring \<Rightarrow> bool \<times> ustring option" where
  "check_keywords lower self title =
     (let title_lower = lower title
      in check_keywords_loop lower title_lower (self_keywords self))"

text \<open>
  \<open>is_today_post\<close>. \<open>now\<close> is the value \<open>datetime.now()\<close> returns inside the method.
  An exception raised by \<open>today in date_str\<close> is caught and turned into \<open>False\<close>.
\<close>

definition is_today_post :: "datetime \<Rightarrow> pyval \<Rightarrow> bool" where
  "is_today_post now date_str =
     (let today = strftime_ymd now
      in case py_in today date_str of Inr b \<Rightarrow> b | Inl e \<Rightarrow> False)"

section \<open>Posts, the parsed page, the environment and the trace of a run\<close>

record post =
  title :: ustring
  date :: ustring
  link :: ustring

text \<open>
  The JSON body of the notification. \<open>keyword\<close> is whatever \<open>check_keywords\<close> returned
  as its second component, so it may be Python's \<open>None\<close>.
\<close>

record payload = post +
  keyword :: "ustring option"
  message :: ustring
  timestamp :: ustring

text \<open>
  What the parser reads off the \<open>BeautifulSoup\<close> tree. A cell is a \<open>td\<close> or \<open>th\<close> element:
  \<open>cell_text\<close> is \<open>cell.get_text(strip=True)\<close>, \<open>find_a\<close> is \<open>cell.find('a')\<close>, and
  \<open>href\<close> is \<open>link_tag.get('href')\<close>. A row is the list \<open>row.find_all(['td', 'th'])\<close>.
  The tree answers \<open>select(selector)\<close> and \<open>find_all('tr')\<close> with lists of rows.
\<close>

datatype anchor = Anchor (href: "ustring option")

record cell =
  cell_text :: ustring
  find_a :: "anchor option"

type_synonym row = "cell list"

record soup =
  soup_select :: "ustring \<Rightarrow> row list"
  soup_find_all_tr :: "row list"

datatype http_result = Response nat ustring | Transport_failure

text \<open>The lines the program prints, with the values interpolated into them.\<close>

datatype log_line =
    Log_start ustring
  | Log_url ustring
  | Log_keywords "ustring list"
  | Log_today_only
  | Log_fetch_failed
  | Log_http_error nat
  | Log_connect_failed
  | Log_post_count nat
  | Log_no_posts
  | Log_match_found
  | Log_match_title ustring
  | Log_match_keyword "ustring option"
  | Log_match_date ustring
  | Log_webhook_ok ustring
  | Log_webhook_failed nat
  | Log_webhook_response ustring
  | Log_webhook_error
  | Log_today_count nat
  | Log_sent_total nat
  | Log_no_match
  | Log_done
  | Log_no_webhook_url

text \<open>
  What a run does, in order: the lines it prints, the HTTP requests it issues, and each
  call of the keyword matcher made by the loop of \<open>monitor_posts\<close> (with the post whose
  title is passed).
\<close>

datatype event =
    Print log_line
  | Http_get ustring
  | Http_post ustring payload
  | Call_check_keywords post

text \<open>
  The world outside the program: the clock (\<open>now_at E n\<close> is what the \<open>n\<close>-th call of
  \<open>datetime.now()\<close> returns), the reply to the GET of the board, the reply to the
  \<open>n\<close>-th POST to the webhook, the HTML parser (which may reject the markup with an
  exception), and the Unicode tables behind \<open>str.lower\<close> and \<open>str.isdigit\<close>.
\<close>

record env =
  now_at :: "nat \<Rightarrow> datetime"
  get_reply :: http_result
  post_reply :: "nat \<Rightarrow> http_result"
  beautiful_soup :: "ustring \<Rightarrow> exn + soup"
  py_lower :: "ustring \<Rightarrow> ustring"
  py_digit :: "nat \<Rightarrow> bool"

record world =
  clock_reads :: nat
  post_calls :: nat
  trace :: "event list"

definition world0 :: world where
  "world0 = \<lparr>clock_reads = 0, post_calls = 0, trace = []\<rparr>"

definition emit :: "event \<Rightarrow> world \<Rightarrow> world" where
  "emit e w = w\<lparr>trace := trace w @ [e]\<rparr>"

definition say :: "log_line \<Rightarrow> world \<Rightarrow> world" where
  "say l w = emit (Print l) w"

definition datetime_now :: "env \<Rightarrow> world \<Rightarrow> datetime \<times> world" where
  "datetime_now E w = (now_at E (clock_reads w), w\<lparr>clock_reads := Suc (clock_reads w)\<rparr>)"

section \<open>Fetcher\<close>

text \<open>\<open>fetch_board_content\<close>: one GET; the text on status 200, \<open>None\<close> otherwise.\<close>

definition fetch_board_content :: "env \<Rightarrow> monitor \<Rightarrow> world \<Rightarrow> ustring option \<times> world" where
  "fetch_board_content E self w =
     (let w1 = emit (Http_get (self_url self)) w
      in case get_reply E of
           Response status_code text \<Rightarrow>
             if status_code = 200 then (Some text, w1)
             else (None, say (Log_http_error status_code) w1)
         | Transport_failure \<Rightarrow> (None, say Log_connect_failed w1))"

section \<open>Parser\<close>

definition possible_selectors :: "ustring list" where
  "possible_selectors =
     [ascii ''table tr'', ascii ''.board-list tr'', ascii ''#board-list tr'', ascii ''tbody tr'']"

text \<open>The loop over the selectors stops at the first one that yields a row.\<close>

fun select_rows :: "soup \<Rightarrow> ustring list \<Rightarrow> row list" where
  "select_rows sp [] = []"
| "select_rows sp (selector # rest) =
     (let rows = soup_select sp selector
      in if rows \<noteq> [] then rows else select_rows sp rest)"

text \<open>The link of the title cell: first anchor, href made absolute.\<close>

definition cell_link :: "cell \<Rightarrow> ustring" where
  "cell_link c =
     (case find_a c of
        None \<Rightarrow> []
      | Some link_tag \<Rightarrow>
          (case href link_tag of
             None \<Rightarrow> []
           | Some h \<Rightarrow>
               if h = [] then []
               else if \<not> startswith h (ascii ''http'')
                    then ascii ''http://www.seoulmetro.co.kr'' @ h
                    else h))"

text \<open>
  The title loop, in document order; \<open>([], [])\<close> are the initial \<open>title\<close> and \<open>link\<close>,
  kept when no cell qualifies.
\<close>

fun find_title :: "(nat \<Rightarrow> bool) \<Rightarrow> row \<Rightarrow> ustring \<times> ustring" where
  "find_title dig [] = ([], [])"
| "find_title dig (c # cs) =
     (if length (cell_text c) > 5 \<and> \<not> isdigit dig (cell_text c)
      then (cell_text c, cell_link c)
      else find_title dig cs)"

definition date_separators :: "ustring list" where
  "date_separators = [ascii ''-'', ascii ''.'', ascii ''/'']"

text \<open>The date loop, run on \<open>reversed(cells)\<close>; \<open>[]\<close> is the initial \<open>date_str\<close>.\<close>

fun find_date :: "row \<Rightarrow> ustring" where
  "find_date [] = []"
| "find_date (c # cs) =
     (if list_ex (\<lambda>char. str_in char (cell_text c)) date_separators
      then (if length (cell_text c) \<ge> 8 then cell_text c else find_date cs)
      else find_date cs)"

text \<open>
  The body of the loop over the rows: \<open>None\<close> when the row is skipped. The clock is read
  only when no cell gave a date. The operations on the tree used here are total, so the
  \<open>except\<close> branch of the row has no case in the model.
\<close>

definition parse_row :: "env \<Rightarrow> row \<Rightarrow> world \<Rightarrow> post option \<times> world" where
  "parse_row E cells w =
     (if length cells \<ge> 3 then
        (case find_title (py_digit E) cells of
           (title_str, link_str) \<Rightarrow>
             if title_str = [] then (None, w)
             else
               (let date_str = find_date (rev cells)
                in if date_str = []
                   then (case datetime_now E w of
                           (now, w1) \<Rightarrow>
                             (Some \<lparr>title = title_str, date = strftime_ymd now, link = link_str\<rparr>, w1))
                   else (Some \<lparr>title = title_str, date = date_str, link = link_str\<rparr>, w)))
      else (None, w))"

fun parse_rows :: "env \<Rightarrow> row list \<Rightarrow> post list \<Rightarrow> world \<Rightarrow> post list \<times> world" where
  "parse_rows E [] posts w = (posts, w)"
| "parse_rows E (r # rs) posts w =
     (case parse_row E r w of
        (None, w1) \<Rightarrow> parse_rows E rs posts w1
      | (Some p, w1) \<Rightarrow> parse_rows E rs (posts @ [p]) w1)"

text \<open>
  \<open>parse_board_posts\<close>. The tree is built before the \<open>try\<close>, so an exception of the
  HTML parser leaves the method.
\<close>

definition parse_board_posts :: "env \<Rightarrow> ustring \<Rightarrow> world \<Rightarrow> (exn + post list) \<times> world" where
  "parse_board_posts E html_content w =
     (if html_content = [] then (Inr [], w)
      else
        (case beautiful_soup E html_content of
           Inl e \<Rightarrow> (Inl e, w)
         | Inr sp \<Rightarrow>
             (let rows = select_rows sp possible_selectors;
                  rows1 = (if rows = [] then soup_find_all_tr sp else rows)
              in case parse_rows E rows1 [] w of (posts, w1) \<Rightarrow> (Inr posts, w1))))"

section \<open>Notifier\<close>

text \<open>\<open>str(x)\<close> inside the f-string, for a value that is a string or \<open>None\<close>.\<close>

definition py_str :: "ustring option \<Rightarrow> ustring" where
  "py_str v = (case v of None \<Rightarrow> ascii ''None'' | Some s \<Rightarrow> s)"

text \<open>
  The message is U+D0A4 U+C6CC U+B4DC SP ' keyword ' SP U+B9E4 U+CE6D : SP title.
\<close>

definition webhook_message :: "ustring option \<Rightarrow> ustring \<Rightarrow> ustring" where
  "webhook_message matched_keyword t =
     [53412, 50892, 46300, 32, 39] @ py_str matched_keyword @ [39, 32, 47588, 52845, 58, 32] @ t"

text \<open>
  \<open>send_webhook\<close>: the payload is built (reading the clock for the timestamp), one POST
  is issued, and the result is \<open>True\<close> only for status 200.
\<close>

definition send_webhook ::
  "env \<Rightarrow> monitor \<Rightarrow> post \<Rightarrow> ustring option \<Rightarrow> world \<Rightarrow> bool \<times> world" where
  "send_webhook E self post_info matched_keyword w =
     (case datetime_now E w of
        (now, w1) \<Rightarrow>
          (let body = \<lparr>title = title post_info, date = date post_info, link = link post_info,
                       keyword = matched_keyword,
                       message = webhook_message matched_keyword (title post_info),
                       timestamp = isoformat now\<rparr>;
               reply = post_reply E (post_calls w1);
               w2 = emit (Http_post (self_webhook_url self) body)
                      (w1\<lparr>post_calls := Suc (post_calls w1)\<rparr>)
           in case reply of
                Response status_code text \<Rightarrow>
                  if status_code = 200 then (True, say (Log_webhook_ok (title post_info)) w2)
                  else (False, say (Log_webhook_response text) (say (Log_webhook_failed status_code) w2))
              | Transport_failure \<Rightarrow> (False, say Log_webhook_error w2)))"

section \<open>Orchestrator\<close>

text \<open>
  The body of the loop over the posts; the loop state is
  \<open>(notifications_sent, today_posts_count, world)\<close>.
\<close>

definition process_post ::
  "env \<Rightarrow> monitor \<Rightarrow> post \<Rightarrow> nat \<times> nat \<times> world \<Rightarrow> nat \<times> nat \<times> world" where
  "process_post E self p s =
     (case s of
        (notifications_sent, today_posts_count, w) \<Rightarrow>
          (case datetime_now E w of
             (now, w1) \<Rightarrow>
               if \<not> is_today_post now (PStr (date p))
               then (notifications_sent, today_posts_count, w1)
               else
                 (case check_keywords (py_lower E) self (title p) of
                    (has_keyword, matched_keyword) \<Rightarrow>
                      (let w2 = emit (Call_check_keywords p) w1
                       in if has_keyword then
                            (case send_webhook E self p matched_keyword
                                    (say (Log_match_date (date p))
                                      (say (Log_match_keyword matched_keyword)
                                        (say (Log_match_title (title p))
                                          (say Log_match_found w2)))) of
                               (ok, w3) \<Rightarrow>
                                 ((if ok then notifications_sent + 1 else notifications_sent),
                                  today_posts_count + 1, w3))
                          else (notifications_sent, today_posts_count + 1, w2)))))"

fun monitor_loop ::
  "env \<Rightarrow> monitor \<Rightarrow> post list \<Rightarrow> nat \<times> nat \<times> world \<Rightarrow> nat \<times> nat \<times> world" where
  "monitor_loop E self [] s = s"
| "monitor_loop E self (p # ps) s = monitor_loop E self ps (process_post E self p s)"

text \<open>
  \<open>monitor_posts\<close>. The result is \<open>Inr ()\<close> when the method returns and \<open>Inl e\<close> when the
  exception \<open>e\<close> leaves it.
\<close>

definition monitor_posts :: "env \<Rightarrow> monitor \<Rightarrow> world \<Rightarrow> (exn + unit) \<times> world" where
  "monitor_posts E self w =
     (case datetime_now E w of
        (now, w1) \<Rightarrow>
          (let w2 = say Log_today_only
                      (say (Log_keywords (self_keywords self))
                        (say (Log_url (self_url self))
                          (say (Log_start (strftime_ymd_hms now)) w1)))
           in case fetch_board_content E self w2 of
                (html_content, w3) \<Rightarrow>
                  (case html_content of
                     None \<Rightarrow> (Inr (), say Log_fetch_failed w3)
                   | Some html \<Rightarrow>
                       if html = [] then (Inr (), say Log_fetch_failed w3)
                       else
                         (case parse_board_posts E html w3 of
                            (Inl e, w4) \<Rightarrow> (Inl e, w4)
                          | (Inr posts, w4) \<Rightarrow>
                              (let w5 = say (Log_post_count (length posts)) w4
                               in if posts = [] then (Inr (), say Log_no_posts w5)
                                  else
                                    (case monitor_loop E self posts (0, 0, w5) of
                                       (notifications_sent, today_posts_count, w6) \<Rightarrow>
                                         (let w7 = say (Log_today_count today_posts_count) w6;
                                              w8 = (if notifications_sent > 0
                                                    then say (Log_sent_total notifications_sent) w7
                                                    else say Log_no_match w7)
                                          in (Inr (), say Log_done w8))))))))"

section \<open>Entry point\<close>

text \<open>
  How the process ends: \<open>Exit n\<close> with exit code \<open>n\<close>, or with an exception nobody caught
  (the interpreter then prints a traceback and the exit code is not 0).
\<close>

datatype outcome = Exit nat | Uncaught exn

text \<open>
  The script body. \<open>environ_webhook_url\<close> is \<open>os.environ.get('WEBHOOK_URL')\<close>. Falling
  off the end of the script is exit code 0.
\<close>

definition main :: "env \<Rightarrow> ustring option \<Rightarrow> world \<Rightarrow> outcome \<times> world" where
  "main E environ_webhook_url w =
     (case environ_webhook_url of
        None \<Rightarrow> (Exit 1, say Log_no_webhook_url w)
      | Some webhook_url \<Rightarrow>
          if webhook_url = [] then (Exit 1, say Log_no_webhook_url w)
          else
            (case monitor_posts E (SeoulMetroMonitor webhook_url) w of
               (Inr u, w1) \<Rightarrow> (Exit 0, w1)
             | (Inl e, w1) \<Rightarrow> (Uncaught e, w1)))"

section \<open>Reading a trace\<close>

text \<open>The POST requests of a trace, in order: the URL and the body of each.\<close>

fun posts_of :: "event list \<Rightarrow> (ustring \<times> payload) list" where
  "posts_of [] = []"
| "posts_of (Http_post u body # es) = (u, body) # posts_of es"
| "posts_of (Print l # es) = posts_of es"
| "posts_of (Http_get u # es) = posts_of es"
| "posts_of (Call_check_keywords p # es) = posts_of es"

text \<open>The posts handed to the keyword matcher in a trace, in order.\<close>

fun matcher_calls_of :: "event list \<Rightarrow> post list" where
  "matcher_calls_of [] = []"
| "matcher_calls_of (Call_check_keywords p # es) = p # matcher_calls_of es"
| "matcher_calls_of (Print l # es) = matcher_calls_of es"
| "matcher_calls_of (Http_get u # es) = matcher_calls_of es"
| "matcher_calls_of (Http_post u body # es) = matcher_calls_of es"

text \<open>The GET requests of a trace, in order.\<close>

fun gets_of :: "event list \<Rightarrow> ustring list" where
  "gets_of [] = []"
| "gets_of (Http_get u # es) = u # gets_of es"
| "gets_of (Print l # es) = gets_of es"
| "gets_of (Http_post u body # es) = gets_of es"
| "gets_of (Call_check_keywords p # es) = gets_of es"

text \<open>
  The world in which the loop of \<open>monitor_posts\<close> over the posts \<open>ps\<close>, started in the
  world \<open>w\<close>, reaches the post with index \<open>i\<close>: the posts before it have had their turn.
  At \<open>i = length ps\<close> it is the world in which the loop ends.
\<close>

definition turn_world :: "env \<Rightarrow> monitor \<Rightarrow> post list \<Rightarrow> world \<Rightarrow> nat \<Rightarrow> world" where
  "turn_world E self ps w i = snd (snd (monitor_loop E self (take i ps) (0, 0, w)))"

section \<open>Sample strings, a sample runtime and a sample board\<close>

text \<open>
  The code points on which \<open>str.lower\<close> is known to change nothing here: the space and
  the Hangul syllables U+AC00 to U+D7A3. \<open>lower_ok\<close> is the one fact about \<open>str.lower\<close>
  that the examples with Korean titles rely on.
\<close>

definition caseless :: "nat \<Rightarrow> bool" where
  "caseless c = (c = 32 \<or> (44032 \<le> c \<and> c \<le> 55203))"

definition lower_ok :: "(ustring \<Rightarrow> ustring) \<Rightarrow> bool" where
  "lower_ok lower = (\<forall>s. list_all caseless s \<longrightarrow> lower s = s)"

text \<open>
  \<open>str.lower\<close> and the digit table restricted to ASCII: an instance of the runtime that
  agrees with Python on ASCII and on code points without case.
\<close>

definition ascii_lower :: "ustring \<Rightarrow> ustring" where
  "ascii_lower s = map (\<lambda>c. if 65 \<le> c \<and> c \<le> 90 then c + 32 else c) s"

definition ascii_digit :: "nat \<Rightarrow> bool" where
  "ascii_digit c = (48 \<le> c \<and> c \<le> 57)"

text \<open>
  The strings of the examples.
  \<open>kw_jangaein\<close> is U+C7A5 U+C560 U+C778 and \<open>kw_jiphoe\<close> is U+C9D1 U+D68C, the second
  and third keyword.
  \<open>title_today_rally\<close> is U+C624 U+B298 U+C758 SP U+C7A5 U+C560 U+C778 SP U+C9D1 U+D68C SP
  U+AD00 U+B828 SP U+ACF5 U+C9C0.
  \<open>title_general\<close> is U+C77C U+BC18 SP U+ACF5 U+C9C0 U+C0AC U+D56D.
  \<open>title_rally_notice\<close> is U+C7A5 U+C560 U+C778 SP U+C9D1 U+D68C U+C2DC U+C704 SP U+C548 U+B0B4.
  \<open>date_with_notice\<close> is 2024-05-01 SP U+ACF5 U+C9C0.
\<close>

definition kw_jangaein :: ustring where
  "kw_jangaein = [51109, 50528, 51064]"

definition kw_jiphoe :: ustring where
  "kw_jiphoe = [51665, 54924]"

definition title_today_rally :: ustring where
  "title_today_rally =
     [50724, 45720, 51032, 32, 51109, 50528, 51064, 32, 51665, 54924, 32, 44288, 47144, 32, 44277, 51648]"

definition title_general :: ustring where
  "title_general = [51068, 48152, 32, 44277, 51648, 49324, 54637]"

definition title_rally_notice :: ustring where
  "title_rally_notice = [51109, 50528, 51064, 32, 51665, 54924, 49884, 50948, 32, 50504, 45236]"

definition date_with_notice :: ustring where
  "date_with_notice = [50, 48, 50, 52, 45, 48, 53, 45, 48, 49, 32, 44277, 51648]"

definition may_first :: datetime where
  "may_first = \<lparr>year = 2024, month = 5, day = 1, hour = 9, minute = 0, second = 0, microsecond = 0\<rparr>"

text \<open>
  A sample board. \<open>example_row\<close> is the row with the cell texts "1", \<open>title_rally_notice\<close>
  and "2024-05-01" and no anchor. \<open>linked_row\<close> is the same row with an anchor with a
  relative href in the title cell. \<open>old_row\<close> is dated the day before and has the title
  \<open>title_general\<close>. \<open>short_row\<close> has two cells. \<open>numbers_row\<close> has three cells, none of
  them long enough for a title.
\<close>

definition example_row :: row where
  "example_row =
     [\<lparr>cell_text = ascii ''1'', find_a = None\<rparr>,
      \<lparr>cell_text = title_rally_notice, find_a = None\<rparr>,
      \<lparr>cell_text = ascii ''2024-05-01'', find_a = None\<rparr>]"

definition linked_row :: row where
  "linked_row =
     [\<lparr>cell_text = ascii ''1'', find_a = None\<rparr>,
      \<lparr>cell_text = title_rally_notice, find_a = Some (Anchor (Some (ascii ''/kr/view.do?id=1'')))\<rparr>,
      \<lparr>cell_text = ascii ''2024-05-01'', find_a = None\<rparr>]"

definition old_row :: row where
  "old_row =
     [\<lparr>cell_text = ascii ''2'', find_a = None\<rparr>,
      \<lparr>cell_text = title_general, find_a = None\<rparr>,
      \<lparr>cell_text = ascii ''2024-04-30'', find_a = None\<rparr>]"




definition sample_soup :: soup where
  "sample_soup =
     \<lparr>soup_select = (\<lambda>selector. if selector = ascii ''table tr'' then [linked_row, old_row] else []),
      soup_find_all_tr = [linked_row, old_row]\<rparr>"

text \<open>The posts that the parser reads off \<open>sample_soup\<close>.\<close>

definition sample_posts :: "post list" where
  "sample_posts =
     [\<lparr>title = title_rally_notice, date = ascii ''2024-05-01'',
        link = ascii ''http://www.seoulmetro.co.kr/kr/view.do?id=1''\<rparr>,
      \<lparr>title = title_general, date = ascii ''2024-04-30'', link = []\<rparr>]"

text \<open>
  A sample environment: the clock stands at the first of May 2024, the board answers
  200 with a page whose tree is \<open>sample_soup\<close>, and the webhook answers 200.
\<close>

definition sample_env :: env where
  "sample_env =
     \<lparr>now_at = (\<lambda>n. may_first),
      get_reply = Response 200 (ascii ''<table>''),
      post_reply = (\<lambda>n. Response 200 []),
      beautiful_soup = (\<lambda>html. Inr sample_soup),
      py_lower = ascii_lower,
      py_digit = ascii_digit\<rparr>"

text \<open>
  A page that the HTML parser rejects, and an environment in which the board answers
  200 with that page.
\<close>

definition rejected_markup :: ustring where
  "rejected_markup = ascii ''<![foo]>''"

definition rejecting_env :: env where
  "rejecting_env =
     \<lparr>now_at = (\<lambda>n. may_first),
      get_reply = Response 200 rejected_markup,
      post_reply = (\<lambda>n. Response 200 []),
      beautiful_soup =
        (\<lambda>html. if html = rejected_markup then Inl ParserRejectedMarkup else Inr sample_soup),
      py_lower = ascii_lower,
      py_digit = ascii_digit\<rparr>"

text \<open>The monitor of the sample runs.\<close>

definition sample_monitor :: monitor where
  "sample_monitor = SeoulMetroMonitor (ascii ''https://hook'')"

text \<open>
  A run that crosses midnight. The board lists two posts dated the first of May 2024,
  both with a title that holds a keyword. The clock stands at 23:59:59 of the first of
  May for its first three readings and at 00:00:00 of the second of May from the fourth
  reading on. \<open>midnight_fetched\<close> is the world of that run after the four lines and the
  GET, \<open>midnight_start\<close> the world in which the loop starts, and \<open>midnight_body\<close> the body
  of the one notification.
\<close>

definition late_evening :: datetime where
  "late_evening = \<lparr>year = 2024, month = 5, day = 1, hour = 23, minute = 59, second = 59, microsecond = 0\<rparr>"

definition past_midnight :: datetime where
  "past_midnight = \<lparr>year = 2024, month = 5, day = 2, hour = 0, minute = 0, second = 0, microsecond = 0\<rparr>"

definition evening_soup :: soup where
  "evening_soup =
     \<lparr>soup_select = (\<lambda>selector. if selector = ascii ''table tr'' then [linked_row, example_row] else []),
      soup_find_all_tr = [linked_row, example_row]\<rparr>"

definition evening_posts :: "post list" where
  "evening_posts =
     [\<lparr>title = title_rally_notice, date = ascii ''2024-05-01'',
        link = ascii ''http://www.seoulmetro.co.kr/kr/view.do?id=1''\<rparr>,
      \<lparr>title = title_rally_notice, date = ascii ''2024-05-01'', link = []\<rparr>]"

definition midnight_env :: env where
  "midnight_env =
     \<lparr>now_at = (\<lambda>n. if n < 3 then late_evening else past_midnight),
      get_reply = Response 200 (ascii ''<table>''),
      post_reply = (\<lambda>n. Response 200 []),
      beautiful_soup = (\<lambda>html. Inr evening_soup),
      py_lower = ascii_lower,
      py_digit = ascii_digit\<rparr>"

definition midnight_fetched :: world where
  "midnight_fetched =
     \<lparr>clock_reads = 1, post_calls = 0,
      trace = [Print (Log_start (strftime_ymd_hms (now_at midnight_env 0))),
               Print (Log_url (self_url sample_monitor)),
               Print (Log_keywords (self_keywords sample_monitor)),
               Print Log_today_only,
               Http_get (self_url sample_monitor)]\<rparr>"

definition midnight_start :: world where
  "midnight_start = say (Log_post_count (length evening_posts)) midnight_fetched"

definition midnight_body :: payload where
  "midnight_body =
     \<lparr>title = title_rally_notice, date = ascii ''2024-05-01'',
      link = ascii ''http://www.seoulmetro.co.kr/kr/view.do?id=1'',
      keyword = Some kw_jangaein,
      message = webhook_message (Some kw_jangaein) title_rally_notice,
      timestamp = isoformat late_evening\<rparr>"

section \<open>Substrings and the digits of a date\<close>

lemma str_in_iff: "str_in a b \<longleftrightarrow> (\<exists>p s. b = p @ a @ s)"
proof (induction b)
  case Nil
  then show ?case by auto
next
  case (Cons y ys)
  show ?case
  proof
    assume "str_in a (y # ys)"
    then consider "prefix a (y # ys)" | "str_in a ys" by auto
    then show "\<exists>p s. y # ys = p @ a @ s"
    proof cases
      case 1
      then obtain s where "y # ys = a @ s" by (auto simp: prefix_def)
      then have "y # ys = [] @ a @ s" by simp
      then show ?thesis by blast
    next
      case 2
      with Cons obtain p s where "ys = p @ a @ s" by blast
      then have "y # ys = (y # p) @ a @ s" by simp
      then show ?thesis by blast
    qed
  next
    assume "\<exists>p s. y # ys = p @ a @ s"
    then obtain p s where ps: "y # ys = p @ a @ s" by blast
    show "str_in a (y # ys)"
    proof (cases p)
      case Nil
      with ps have "prefix a (y # ys)" by (simp add: prefix_def)
      then show ?thesis by simp
    next
      case (Cons q qs)
      with ps have "ys = qs @ a @ s" by simp
      with Cons.IH have "str_in a ys" by blast
      then show ?thesis by simp
    qed
  qed
qed

lemma digits2:
  fixes n :: nat
  assumes "n \<le> 99" "n div 10 mod 10 = a" "n mod 10 = b"
  shows "n = 10 * a + b"
proof -
  have "n div 10 < 10" using assms(1) by (simp add: div_less_iff_less_mult)
  then have "n div 10 = a" using assms(2) by simp
  moreover have "n = 10 * (n div 10) + n mod 10" by simp
  ultimately show ?thesis using assms(3) by simp
qed

lemma digits4:
  fixes n :: nat
  assumes "n \<le> 9999" "n div 1000 mod 10 = a" "n div 100 mod 10 = b" "n div 10 mod 10 = c"
    "n mod 10 = d"
  shows "n = 1000 * a + 100 * b + 10 * c + d"
proof -
  have "n div 1000 < 10" using assms(1) by (simp add: div_less_iff_less_mult)
  then have a: "n div 1000 = a" using assms(2) by simp
  have e1: "n = 10 * (n div 10) + d" using assms(5) by auto
  have "n div 100 = n div 10 div 10" by (simp add: div_mult2_eq)
  then have e2: "n div 10 = 10 * (n div 100) + c" using assms(4) by auto
  have "n div 1000 = n div 100 div 10" by (simp add: div_mult2_eq)
  then have e3: "n div 100 = 10 * (n div 1000) + b" using assms(3) by auto
  show ?thesis using a e1 e2 e3 by linarith
qed

lemma today_in_date_with_notice:
  assumes "valid_datetime now"
  shows "str_in (strftime_ymd now) date_with_notice
         \<longleftrightarrow> year now = 2024 \<and> month now = 5 \<and> day now = 1"
proof -
  have y: "year now \<le> 9999" and m: "month now \<le> 99" and d: "day now \<le> 99"
    using assms by (simp_all add: valid_datetime_def)
  have *: "str_in (strftime_ymd now) date_with_notice
        \<longleftrightarrow> (year now div 1000 mod 10 = 2 \<and> year now div 100 mod 10 = 0 \<and> year now div 10 mod 10 = 2
            \<and> year now mod 10 = 4 \<and> month now div 10 mod 10 = 0 \<and> month now mod 10 = 5
            \<and> day now div 10 mod 10 = 0 \<and> day now mod 10 = 1)"
    by (simp add: date_with_notice_def strftime_ymd_def pad4_def pad2_def dg_def)
  show ?thesis
  proof
    assume "str_in (strftime_ymd now) date_with_notice"
    with * have h: "year now div 1000 mod 10 = 2" "year now div 100 mod 10 = 0"
      "year now div 10 mod 10 = 2" "year now mod 10 = 4" "month now div 10 mod 10 = 0"
      "month now mod 10 = 5" "day now div 10 mod 10 = 0" "day now mod 10 = 1" by simp_all
    from digits4[OF y h(1-4)] digits2[OF m h(5,6)] digits2[OF d h(7,8)]
    show "year now = 2024 \<and> month now = 5 \<and> day now = 1" by simp
  next
    assume "year now = 2024 \<and> month now = 5 \<and> day now = 1"
    then show "str_in (strftime_ymd now) date_with_notice"
      unfolding * by simp
  qed
qed

lemma valid_may_first: "valid_datetime may_first"
  by (simp add: valid_datetime_def may_first_def)

section \<open>The today check\<close>

text \<open>
  C2. For every string \<open>date_str\<close>, \<open>is_today_post\<close> is true exactly when today's date in
  the form YYYY-MM-DD occurs in \<open>date_str\<close> as a substring; whenever the containment
  test raises, the result is false. For the string "2024-05-01" followed by a space and
  U+ACF5 U+C9C0 the result is true exactly when the clock shows the first of May 2024.
\<close>

theorem is_today_post_substring:
  "(is_today_post now (PStr s) \<longleftrightarrow> (\<exists>p q. s = p @ strftime_ymd now @ q))
   \<and> (py_in (strftime_ymd now) v = Inl e \<longrightarrow> is_today_post now v = False)
   \<and> (valid_datetime now \<longrightarrow>
        (is_today_post now (PStr date_with_notice)
           \<longleftrightarrow> year now = 2024 \<and> month now = 5 \<and> day now = 1))"
proof (intro conjI impI)
  show "is_today_post now (PStr s) \<longleftrightarrow> (\<exists>p q. s = p @ strftime_ymd now @ q)"
    by (simp add: is_today_post_def py_in_def str_in_iff)
next
  assume "py_in (strftime_ymd now) v = Inl e"
  then show "is_today_post now v = False"
    by (simp add: is_today_post_def)
next
  assume "valid_datetime now"
  then show "is_today_post now (PStr date_with_notice)
               \<longleftrightarrow> year now = 2024 \<and> month now = 5 \<and> day now = 1"
    by (simp add: is_today_post_def py_in_def today_in_date_with_notice)
qed

theorem is_today_post_substring_witness:
  "valid_datetime may_first
   \<and> py_in (strftime_ymd may_first) PNone = Inl TypeError
   \<and> is_today_post may_first PNone = False
   \<and> is_today_post may_first (PStr date_with_notice)
   \<and> year may_first = 2024 \<and> month may_first = 5 \<and> day may_first = 1"
proof -
  note T = is_today_post_substring [of may_first date_with_notice PNone TypeError]
  have p: "py_in (strftime_ymd may_first) PNone = Inl TypeError"
    by (simp add: py_in_def)
  have ymd: "year may_first = 2024 \<and> month may_first = 5 \<and> day may_first = 1"
    by (simp add: may_first_def)
  from T p have a: "is_today_post may_first PNone = False" by blast
  from T valid_may_first ymd have b: "is_today_post may_first (PStr date_with_notice)" by blast
  from valid_may_first p a b ymd show ?thesis by blast
qed

section \<open>The keyword matcher\<close>

lemma check_keywords_loop_hit:
  "check_keywords_loop lower t ks = (True, r) \<Longrightarrow>
   \<exists>i < length ks. r = Some (ks ! i) \<and> str_in (lower (ks ! i)) t
      \<and> (\<forall>j < i. \<not> str_in (lower (ks ! j)) t)"
proof (induction ks)
  case Nil
  then show ?case by simp
next
  case (Cons k ks)
  show ?case
  proof (cases "str_in (lower k) t")
    case True
    with Cons.prems have "r = Some k" by simp
    with True have "0 < length (k # ks) \<and> r = Some ((k # ks) ! 0)
        \<and> str_in (lower ((k # ks) ! 0)) t \<and> (\<forall>j < 0. \<not> str_in (lower ((k # ks) ! j)) t)"
      by simp
    then show ?thesis by blast
  next
    case False
    with Cons.prems have "check_keywords_loop lower t ks = (True, r)" by simp
    from Cons.IH[OF this] obtain i where i: "i < length ks" "r = Some (ks ! i)"
       "str_in (lower (ks ! i)) t" "\<forall>j < i. \<not> str_in (lower (ks ! j)) t" by blast
    have "\<forall>j < Suc i. \<not> str_in (lower ((k # ks) ! j)) t"
    proof (intro allI impI)
      fix j assume "j < Suc i"
      then show "\<not> str_in (lower ((k # ks) ! j)) t" using False i(4) by (cases j) auto
    qed
    with i have "Suc i < length (k # ks) \<and> r = Some ((k # ks) ! Suc i)
        \<and> str_in (lower ((k # ks) ! Suc i)) t \<and> (\<forall>j < Suc i. \<not> str_in (lower ((k # ks) ! j)) t)"
      by simp
    then show ?thesis by blast
  qed
qed

lemma check_keywords_loop_miss:
  "check_keywords_loop lower t ks = (False, r) \<Longrightarrow>
   r = None \<and> (\<forall>k \<in> set ks. \<not> str_in (lower k) t)"
  by (induction ks) (auto split: if_splits)

lemma configured_keywords:
  "self_keywords (SeoulMetroMonitor u) =
     [[53945, 51221, 32, 51109, 50528, 51064, 32, 45800, 52404, 32, 51665, 54924, 49884, 50948],
      kw_jangaein, kw_jiphoe, [49884, 50948]]"
  by (simp add: SeoulMetroMonitor_def kw_jangaein_def kw_jiphoe_def)

lemma lower_ok_ascii_lower: "lower_ok ascii_lower"
proof -
  have "list_all caseless s \<Longrightarrow> ascii_lower s = s" for s
    by (induction s) (auto simp: ascii_lower_def caseless_def)
  then show ?thesis by (simp add: lower_ok_def)
qed

lemma lower_title_today_rally: "lower_ok lower \<Longrightarrow> lower title_today_rally = title_today_rally"
  by (simp add: lower_ok_def title_today_rally_def caseless_def)

lemma lower_title_general: "lower_ok lower \<Longrightarrow> lower title_general = title_general"
  by (simp add: lower_ok_def title_general_def caseless_def)

lemma lower_configured_keywords:
  "lower_ok lower \<Longrightarrow> map lower (self_keywords (SeoulMetroMonitor u)) = self_keywords (SeoulMetroMonitor u)"
  by (simp add: lower_ok_def SeoulMetroMonitor_def caseless_def)

lemma check_keywords_loop_map:
  "map lower ks = ks \<Longrightarrow> check_keywords_loop lower t ks = check_keywords_loop (\<lambda>s. s) t ks"
  by (induction ks) auto

lemma check_today_rally:
  assumes "lower_ok lower"
  shows "check_keywords lower (SeoulMetroMonitor u) title_today_rally = (True, Some kw_jangaein)"
proof -
  have "check_keywords lower (SeoulMetroMonitor u) title_today_rally
        = check_keywords_loop (\<lambda>s. s) title_today_rally (self_keywords (SeoulMetroMonitor u))"
    using assms check_keywords_loop_map [OF lower_configured_keywords [OF assms]]
    by (simp add: check_keywords_def lower_title_today_rally)
  also have "\<dots> = (True, Some kw_jangaein)"
    by (simp add: SeoulMetroMonitor_def title_today_rally_def kw_jangaein_def)
  finally show ?thesis .
qed

lemma check_general:
  assumes "lower_ok lower"
  shows "check_keywords lower (SeoulMetroMonitor u) title_general = (False, None)"
proof -
  have "check_keywords lower (SeoulMetroMonitor u) title_general
        = check_keywords_loop (\<lambda>s. s) title_general (self_keywords (SeoulMetroMonitor u))"
    using assms check_keywords_loop_map [OF lower_configured_keywords [OF assms]]
    by (simp add: check_keywords_def lower_title_general)
  also have "\<dots> = (False, None)"
    by (simp add: SeoulMetroMonitor_def title_general_def)
  finally show ?thesis .
qed

text \<open>
  C3. For every title, \<open>check_keywords\<close> returns \<open>(True, k)\<close> where \<open>k\<close> is the first
  keyword, in the order of the configured list, whose lowercased form occurs in the
  lowercased title, and \<open>(False, None)\<close> when no keyword occurs. The result carries at
  most one keyword, also when several occur.
\<close>

theorem check_keywords_first_match:
  "(\<exists>i < length (self_keywords self).
       check_keywords lower self t = (True, Some (self_keywords self ! i))
       \<and> str_in (lower (self_keywords self ! i)) (lower t)
       \<and> (\<forall>j < i. \<not> str_in (lower (self_keywords self ! j)) (lower t)))
   \<or> (check_keywords lower self t = (False, None)
       \<and> (\<forall>k \<in> set (self_keywords self). \<not> str_in (lower k) (lower t)))"
proof (cases "check_keywords lower self t")
  case (Pair b r)
  then have L: "check_keywords_loop lower (lower t) (self_keywords self) = (b, r)"
    by (simp add: check_keywords_def)
  show ?thesis
  proof (cases b)
    case True
    with L check_keywords_loop_hit[of lower "lower t" "self_keywords self" r] Pair
    show ?thesis by auto
  next
    case False
    with L check_keywords_loop_miss[of lower "lower t" "self_keywords self" r] Pair
    show ?thesis by auto
  qed
qed

theorem check_keywords_first_match_witness:
  "1 < length (self_keywords (SeoulMetroMonitor []))
   \<and> check_keywords ascii_lower (SeoulMetroMonitor []) title_today_rally
       = (True, Some (self_keywords (SeoulMetroMonitor []) ! 1))
   \<and> str_in (ascii_lower (self_keywords (SeoulMetroMonitor []) ! 1)) (ascii_lower title_today_rally)
   \<and> \<not> str_in (ascii_lower (self_keywords (SeoulMetroMonitor []) ! 0)) (ascii_lower title_today_rally)"
proof -
  let ?ks = "self_keywords (SeoulMetroMonitor [])"
  note T = check_keywords_first_match [of "SeoulMetroMonitor []" ascii_lower title_today_rally]
  have r: "check_keywords ascii_lower (SeoulMetroMonitor []) title_today_rally = (True, Some kw_jangaein)"
    by (rule check_today_rally [OF lower_ok_ascii_lower])
  have k1: "?ks ! 1 = kw_jangaein" and len: "length ?ks = 4"
    by (simp_all add: configured_keywords)
  from T r obtain i where i: "i < length ?ks" "Some (?ks ! i) = Some kw_jangaein"
    "str_in (ascii_lower (?ks ! i)) (ascii_lower title_today_rally)"
    "\<forall>j < i. \<not> str_in (ascii_lower (?ks ! j)) (ascii_lower title_today_rally)"
    by auto
  have "i = 1"
  proof -
    from i(1) len have "i = 0 \<or> i = 1 \<or> i = 2 \<or> i = 3" by arith
    with i(2) show ?thesis
      by (auto simp: configured_keywords kw_jangaein_def kw_jiphoe_def)
  qed
  with i len r k1 show ?thesis by simp
qed

text \<open>
  C4, as amended. With the configured keyword list, \<open>check_keywords\<close> on the title
  \<open>title_today_rally\<close> returns \<open>(True, kw_jangaein)\<close>: the title contains both
  \<open>kw_jangaein\<close> and \<open>kw_jiphoe\<close>, and \<open>kw_jangaein\<close> stands earlier in the list. On
  \<open>title_general\<close> it returns \<open>(False, None)\<close>.
\<close>

theorem check_keywords_examples:
  "lower_ok lower \<Longrightarrow>
   check_keywords lower (SeoulMetroMonitor u) title_today_rally = (True, Some kw_jangaein)
   \<and> check_keywords lower (SeoulMetroMonitor u) title_general = (False, None)"
  by (simp add: check_today_rally check_general)

theorem check_keywords_examples_witness:
  "lower_ok ascii_lower
   \<and> check_keywords ascii_lower (SeoulMetroMonitor []) title_today_rally = (True, Some kw_jangaein)
   \<and> check_keywords ascii_lower (SeoulMetroMonitor []) title_general = (False, None)"
  using check_keywords_examples [OF lower_ok_ascii_lower, of "[]"] lower_ok_ascii_lower
  by simp

text \<open>The result on \<open>title_today_rally\<close> is not the keyword \<open>kw_jiphoe\<close>.\<close>

theorem check_keywords_examples_counterexample:
  "check_keywords ascii_lower (SeoulMetroMonitor []) title_today_rally \<noteq> (True, Some kw_jiphoe)"
  using check_today_rally [OF lower_ok_ascii_lower, of "[]"]
  by (simp add: kw_jangaein_def kw_jiphoe_def)

section \<open>The parser\<close>

lemma str_in_single: "str_in [c] t \<longleftrightarrow> c \<in> set t"
  by (induction t) auto

lemma has_separator_iff:
  "list_ex (\<lambda>char. str_in char t) date_separators \<longleftrightarrow> (45 \<in> set t \<or> 46 \<in> set t \<or> 47 \<in> set t)"
  by (simp add: date_separators_def ascii_def str_in_single)



lemma find_title_cases:
  "find_title dig cells = ([], []) \<and>
     (\<forall>c \<in> set cells. \<not> (5 < length (cell_text c) \<and> \<not> isdigit dig (cell_text c)))
   \<or> (\<exists>c \<in> set cells. find_title dig cells = (cell_text c, cell_link c)
         \<and> 5 < length (cell_text c) \<and> \<not> isdigit dig (cell_text c))"
  by (induction cells) auto



lemma find_date_cases:
  "find_date cells = [] \<and>
     (\<forall>c \<in> set cells. \<not> ((45 \<in> set (cell_text c) \<or> 46 \<in> set (cell_text c) \<or> 47 \<in> set (cell_text c))
         \<and> 8 \<le> length (cell_text c)))
   \<or> (\<exists>c \<in> set cells. find_date cells = cell_text c
         \<and> (45 \<in> set (cell_text c) \<or> 46 \<in> set (cell_text c) \<or> 47 \<in> set (cell_text c))
         \<and> 8 \<le> length (cell_text c))"
  by (induction cells) (auto simp: has_separator_iff)

lemma length_strftime_ymd: "length (strftime_ymd t) = 10"
  by (simp add: strftime_ymd_def pad4_def pad2_def)

lemma cell_link_cases:
  "cell_link c = [] \<or> startswith (cell_link c) (ascii ''http'')"
  by (auto simp: cell_link_def startswith_def ascii_def split: option.splits)



lemma parse_row_Some:
  assumes "parse_row E cells w = (Some p, w')"
  shows "3 \<le> length cells \<and> fst (find_title (py_digit E) cells) \<noteq> []
         \<and> title p = fst (find_title (py_digit E) cells)
         \<and> link p = snd (find_title (py_digit E) cells)
         \<and> (find_date (rev cells) \<noteq> [] \<longrightarrow> date p = find_date (rev cells) \<and> w' = w)
         \<and> (find_date (rev cells) = [] \<longrightarrow> date p = strftime_ymd (now_at E (clock_reads w))
               \<and> w' = w\<lparr>clock_reads := Suc (clock_reads w)\<rparr>)"
  using assms
  by (auto simp: parse_row_def datetime_now_def Let_def split: if_splits prod.splits)





lemma parse_linked_row:
  "parse_row sample_env linked_row w =
     (Some \<lparr>title = title_rally_notice, date = ascii ''2024-05-01'',
            link = ascii ''http://www.seoulmetro.co.kr/kr/view.do?id=1''\<rparr>, w)"
  by (simp add: parse_row_def linked_row_def sample_env_def title_rally_notice_def isdigit_def
      ascii_digit_def ascii_def cell_link_def startswith_def date_separators_def)










lemma parse_row_post_shape:
  assumes "parse_row E cells w = (Some p, w')"
  shows "5 < length (title p) \<and> title p \<noteq> [] \<and> \<not> isdigit (py_digit E) (title p)
         \<and> date p \<noteq> []
         \<and> ((8 \<le> length (date p) \<and> (45 \<in> set (date p) \<or> 46 \<in> set (date p) \<or> 47 \<in> set (date p)))
             \<or> (\<exists>n. date p = strftime_ymd (now_at E n)))
         \<and> (link p = [] \<or> startswith (link p) (ascii ''http''))"
proof -
  note S = parse_row_Some [OF assms]
  from S have ne: "fst (find_title (py_digit E) cells) \<noteq> []" by simp
  from find_title_cases [of "py_digit E" cells] ne
  obtain c where c: "find_title (py_digit E) cells = (cell_text c, cell_link c)"
    "5 < length (cell_text c)" "\<not> isdigit (py_digit E) (cell_text c)" by auto
  from S c have t: "title p = cell_text c" and l: "link p = cell_link c" by simp_all
  have lk: "link p = [] \<or> startswith (link p) (ascii ''http'')"
    unfolding l by (rule cell_link_cases)
  have d: "date p \<noteq> [] \<and> ((8 \<le> length (date p) \<and> (45 \<in> set (date p) \<or> 46 \<in> set (date p) \<or> 47 \<in> set (date p)))
             \<or> (\<exists>n. date p = strftime_ymd (now_at E n)))"
  proof (cases "find_date (rev cells) = []")
    case True
    with S have e: "date p = strftime_ymd (now_at E (clock_reads w))" by simp
    have "length (date p) = 10" unfolding e by (rule length_strftime_ymd)
    then have "date p \<noteq> []" by auto
    with e show ?thesis by blast
  next
    case False
    with S have e: "date p = find_date (rev cells)" by simp
    from find_date_cases [of "rev cells"] False
    have "\<exists>k \<in> set (rev cells). find_date (rev cells) = cell_text k
         \<and> (45 \<in> set (cell_text k) \<or> 46 \<in> set (cell_text k) \<or> 47 \<in> set (cell_text k))
         \<and> 8 \<le> length (cell_text k)" by simp
    then obtain k where "k \<in> set (rev cells)" and kk: "find_date (rev cells) = cell_text k
         \<and> (45 \<in> set (cell_text k) \<or> 46 \<in> set (cell_text k) \<or> 47 \<in> set (cell_text k))
         \<and> 8 \<le> length (cell_text k)" ..
    from e kk have ek: "date p = cell_text k" by simp
    from False e have "date p \<noteq> []" by simp
    with kk show ?thesis unfolding ek by simp
  qed
  from c t lk d show ?thesis by auto
qed

lemma parse_rows_all:
  assumes "\<And>r w p w'. parse_row E r w = (Some p, w') \<Longrightarrow> P p"
  shows "parse_rows E rows acc w = (posts, w') \<Longrightarrow> \<forall>p \<in> set acc. P p \<Longrightarrow> \<forall>p \<in> set posts. P p"
proof (induction rows arbitrary: acc w)
  case Nil
  then show ?case by simp
next
  case (Cons r rs)
  obtain o1 w1 where pr: "parse_row E r w = (o1, w1)" by (cases "parse_row E r w")
  show ?case
  proof (cases o1)
    case None
    with pr Cons.prems(1) have "parse_rows E rs acc w1 = (posts, w')" by simp
    from Cons.IH [OF this Cons.prems(2)] show ?thesis .
  next
    case (Some q)
    with pr Cons.prems(1) have step: "parse_rows E rs (acc @ [q]) w1 = (posts, w')" by simp
    from pr Some have "P q" using assms by blast
    with Cons.prems(2) have "\<forall>p \<in> set (acc @ [q]). P p" by simp
    from Cons.IH [OF step this] show ?thesis .
  qed
qed

lemma parse_board_posts_rows:
  assumes "parse_board_posts E html_content w = (Inr posts, w')"
  shows "posts = [] \<or> (\<exists>rows. parse_rows E rows [] w = (posts, w'))"
  using assms
  by (auto simp: parse_board_posts_def Let_def split: if_splits sum.splits prod.splits)

text \<open>
  C10. Every post returned by \<open>parse_board_posts\<close> has a title longer than 5 characters
  (so not empty) that is not all digits, a date that is not empty (a text of at least 8
  characters with one of \<open>-\<close>, \<open>.\<close>, \<open>/\<close> in it, or a clock reading in the form
  YYYY-MM-DD), and a link that is empty or starts with "http".
\<close>

theorem parse_board_posts_shape:
  "parse_board_posts E html_content w = (Inr posts, w') \<longrightarrow>
   (\<forall>p \<in> set posts.
      5 < length (title p) \<and> title p \<noteq> [] \<and> \<not> isdigit (py_digit E) (title p)
      \<and> date p \<noteq> []
      \<and> ((8 \<le> length (date p) \<and> (45 \<in> set (date p) \<or> 46 \<in> set (date p) \<or> 47 \<in> set (date p)))
          \<or> (\<exists>n. date p = strftime_ymd (now_at E n)))
      \<and> (link p = [] \<or> startswith (link p) (ascii ''http'')))"
proof
  assume a: "parse_board_posts E html_content w = (Inr posts, w')"
  let ?P = "\<lambda>p. 5 < length (title p) \<and> title p \<noteq> [] \<and> \<not> isdigit (py_digit E) (title p)
      \<and> date p \<noteq> []
      \<and> ((8 \<le> length (date p) \<and> (45 \<in> set (date p) \<or> 46 \<in> set (date p) \<or> 47 \<in> set (date p)))
          \<or> (\<exists>n. date p = strftime_ymd (now_at E n)))
      \<and> (link p = [] \<or> startswith (link p) (ascii ''http''))"
  from parse_board_posts_rows [OF a] show "\<forall>p \<in> set posts. ?P p"
  proof
    assume "posts = []"
    then show ?thesis by simp
  next
    assume "\<exists>rows. parse_rows E rows [] w = (posts, w')"
    then obtain rows where r: "parse_rows E rows [] w = (posts, w')" by blast
    have "\<forall>p \<in> set posts. ?P p"
    proof (rule parse_rows_all [where P = ?P, OF _ r])
      fix r0 w0 p0 w1
      assume "parse_row E r0 w0 = (Some p0, w1)"
      then show "?P p0" by (rule parse_row_post_shape)
    next
      show "\<forall>p \<in> set []. ?P p" by simp
    qed
    then show ?thesis .
  qed
qed

lemma parse_old_row:
  "parse_row sample_env old_row w =
     (Some \<lparr>title = title_general, date = ascii ''2024-04-30'', link = []\<rparr>, w)"
  by (simp add: parse_row_def old_row_def sample_env_def title_general_def isdigit_def
      ascii_digit_def ascii_def cell_link_def date_separators_def)

lemma sample_rows:
  "select_rows sample_soup possible_selectors = [linked_row, old_row]"
  by (simp add: possible_selectors_def sample_soup_def linked_row_def)

lemma parse_sample_board:
  "html \<noteq> [] \<Longrightarrow> parse_board_posts sample_env html w = (Inr sample_posts, w)"
proof -
  assume h: "html \<noteq> []"
  have bs: "beautiful_soup sample_env html = Inr sample_soup" by (simp add: sample_env_def)
  have ne: "[linked_row, old_row] \<noteq> []" by simp
  have "parse_rows sample_env [linked_row, old_row] [] w = (sample_posts, w)"
    by (simp add: parse_linked_row parse_old_row sample_posts_def)
  with h bs sample_rows show ?thesis
    by (simp add: parse_board_posts_def)
qed

theorem parse_board_posts_shape_witness:
  "parse_board_posts sample_env (ascii ''<table>'') world0 = (Inr sample_posts, world0)
   \<and> \<lparr>title = title_rally_notice, date = ascii ''2024-05-01'',
        link = ascii ''http://www.seoulmetro.co.kr/kr/view.do?id=1''\<rparr> \<in> set sample_posts
   \<and> 5 < length title_rally_notice
   \<and> \<not> isdigit (py_digit sample_env) title_rally_notice
   \<and> ascii ''2024-05-01'' \<noteq> []
   \<and> startswith (ascii ''http://www.seoulmetro.co.kr/kr/view.do?id=1'') (ascii ''http'')"
proof -
  let ?p = "\<lparr>title = title_rally_notice, date = ascii ''2024-05-01'',
        link = ascii ''http://www.seoulmetro.co.kr/kr/view.do?id=1''\<rparr>"
  have ne: "ascii ''<table>'' \<noteq> []" by (simp add: ascii_def)
  have run: "parse_board_posts sample_env (ascii ''<table>'') world0 = (Inr sample_posts, world0)"
    by (rule parse_sample_board [OF ne])
  have mem: "?p \<in> set sample_posts" by (simp add: sample_posts_def)
  have lne: "link ?p \<noteq> []" by (simp add: ascii_def)
  from parse_board_posts_shape [of sample_env "ascii ''<table>''" world0 sample_posts world0] run mem
  have "5 < length (title ?p) \<and> title ?p \<noteq> [] \<and> \<not> isdigit (py_digit sample_env) (title ?p)
      \<and> date ?p \<noteq> []
      \<and> ((8 \<le> length (date ?p) \<and> (45 \<in> set (date ?p) \<or> 46 \<in> set (date ?p) \<or> 47 \<in> set (date ?p)))
          \<or> (\<exists>n. date ?p = strftime_ymd (now_at sample_env n)))
      \<and> (link ?p = [] \<or> startswith (link ?p) (ascii ''http''))"
    by blast
  with lne have "5 < length title_rally_notice \<and> \<not> isdigit (py_digit sample_env) title_rally_notice
      \<and> ascii ''2024-05-01'' \<noteq> []
      \<and> startswith (ascii ''http://www.seoulmetro.co.kr/kr/view.do?id=1'') (ascii ''http'')"
    by simp
  with run mem show ?thesis by blast
qed

section \<open>The notifier\<close>

lemma posts_of_append: "posts_of (a @ b) = posts_of a @ posts_of b"
  by (induction a rule: posts_of.induct) auto

lemma matcher_calls_of_append: "matcher_calls_of (a @ b) = matcher_calls_of a @ matcher_calls_of b"
  by (induction a rule: matcher_calls_of.induct) auto

lemma gets_of_append: "gets_of (a @ b) = gets_of a @ gets_of b"
  by (induction a rule: gets_of.induct) auto

lemma emit_fields:
  "trace (emit e w) = trace w @ [e]"
  "clock_reads (emit e w) = clock_reads w"
  "post_calls (emit e w) = post_calls w"
  by (simp_all add: emit_def)

lemma say_fields:
  "trace (say l w) = trace w @ [Print l]"
  "clock_reads (say l w) = clock_reads w"
  "post_calls (say l w) = post_calls w"
  by (simp_all add: say_def emit_def)

lemma send_webhook_result:
  "fst (send_webhook E self post_info kw w)
     \<longleftrightarrow> (\<exists>reply_text. post_reply E (post_calls w) = Response 200 reply_text)"
  by (cases "post_reply E (post_calls w)")
     (auto simp: send_webhook_def datetime_now_def Let_def)

lemma send_webhook_trace:
  "\<exists>logs. trace (snd (send_webhook E self post_info kw w)) =
     trace w @ Http_post (self_webhook_url self)
        \<lparr>title = title post_info, date = date post_info, link = link post_info,
         keyword = kw, message = webhook_message kw (title post_info),
         timestamp = isoformat (now_at E (clock_reads w))\<rparr> # map Print logs"
proof (cases "post_reply E (post_calls w)")
  case (Response status_code reply_text)
  show ?thesis
  proof (cases "status_code = 200")
    case True
    with Response have "trace (snd (send_webhook E self post_info kw w)) =
     trace w @ Http_post (self_webhook_url self)
        \<lparr>title = title post_info, date = date post_info, link = link post_info,
         keyword = kw, message = webhook_message kw (title post_info),
         timestamp = isoformat (now_at E (clock_reads w))\<rparr> # map Print [Log_webhook_ok (title post_info)]"
      by (simp add: send_webhook_def datetime_now_def Let_def emit_fields say_fields)
    then show ?thesis by blast
  next
    case False
    with Response have "trace (snd (send_webhook E self post_info kw w)) =
     trace w @ Http_post (self_webhook_url self)
        \<lparr>title = title post_info, date = date post_info, link = link post_info,
         keyword = kw, message = webhook_message kw (title post_info),
         timestamp = isoformat (now_at E (clock_reads w))\<rparr>
        # map Print [Log_webhook_failed status_code, Log_webhook_response reply_text]"
      by (simp add: send_webhook_def datetime_now_def Let_def emit_fields say_fields)
    then show ?thesis by blast
  qed
next
  case Transport_failure
  then have "trace (snd (send_webhook E self post_info kw w)) =
     trace w @ Http_post (self_webhook_url self)
        \<lparr>title = title post_info, date = date post_info, link = link post_info,
         keyword = kw, message = webhook_message kw (title post_info),
         timestamp = isoformat (now_at E (clock_reads w))\<rparr> # map Print [Log_webhook_error]"
    by (simp add: send_webhook_def datetime_now_def Let_def emit_fields say_fields)
  then show ?thesis by blast
qed

lemma posts_of_prints: "posts_of (map Print logs) = []"
  by (induction logs) auto

lemma matcher_calls_of_prints: "matcher_calls_of (map Print logs) = []"
  by (induction logs) auto

lemma gets_of_prints: "gets_of (map Print logs) = []"
  by (induction logs) auto

lemma send_webhook_counters:
  "clock_reads (snd (send_webhook E self post_info kw w)) = Suc (clock_reads w)"
  "post_calls (snd (send_webhook E self post_info kw w)) = Suc (post_calls w)"
  by (cases "post_reply E (post_calls w)";
      simp add: send_webhook_def datetime_now_def Let_def emit_fields say_fields)+

text \<open>
  C7. \<open>send_webhook\<close> returns true exactly when the POST to the webhook completes with
  status 200; any other status and any transport failure give false; and in every case
  exactly one POST is issued, so nothing is retried.
\<close>

theorem send_webhook_status_200:
  "(fst (send_webhook E self post_info kw w)
      \<longleftrightarrow> (\<exists>reply_text. post_reply E (post_calls w) = Response 200 reply_text))
   \<and> (post_reply E (post_calls w) = Transport_failure \<longrightarrow> \<not> fst (send_webhook E self post_info kw w))
   \<and> (post_reply E (post_calls w) = Response status_code reply_text \<and> status_code \<noteq> 200
        \<longrightarrow> \<not> fst (send_webhook E self post_info kw w))
   \<and> (\<exists>body. posts_of (trace (snd (send_webhook E self post_info kw w)))
                = posts_of (trace w) @ [(self_webhook_url self, body)])"
proof (intro conjI impI)
  show "fst (send_webhook E self post_info kw w)
      \<longleftrightarrow> (\<exists>reply_text. post_reply E (post_calls w) = Response 200 reply_text)"
    by (rule send_webhook_result)
next
  assume "post_reply E (post_calls w) = Transport_failure"
  then show "\<not> fst (send_webhook E self post_info kw w)"
    by (simp add: send_webhook_result)
next
  assume "post_reply E (post_calls w) = Response status_code reply_text \<and> status_code \<noteq> 200"
  then show "\<not> fst (send_webhook E self post_info kw w)"
    by (simp add: send_webhook_result)
next
  from send_webhook_trace [of E self post_info kw w]
  obtain logs where "trace (snd (send_webhook E self post_info kw w)) =
     trace w @ Http_post (self_webhook_url self)
        \<lparr>title = title post_info, date = date post_info, link = link post_info,
         keyword = kw, message = webhook_message kw (title post_info),
         timestamp = isoformat (now_at E (clock_reads w))\<rparr> # map Print logs" ..
  then have "posts_of (trace (snd (send_webhook E self post_info kw w)))
      = posts_of (trace w) @ [(self_webhook_url self,
        \<lparr>title = title post_info, date = date post_info, link = link post_info,
         keyword = kw, message = webhook_message kw (title post_info),
         timestamp = isoformat (now_at E (clock_reads w))\<rparr>)]"
    by (simp add: posts_of_append posts_of_prints)
  then show "\<exists>body. posts_of (trace (snd (send_webhook E self post_info kw w)))
                = posts_of (trace w) @ [(self_webhook_url self, body)]" by blast
qed

theorem send_webhook_status_200_witness:
  "post_reply sample_env (post_calls world0) = Response 200 []
   \<and> fst (send_webhook sample_env (SeoulMetroMonitor (ascii ''https://hook''))
        \<lparr>title = title_rally_notice, date = ascii ''2024-05-01'', link = []\<rparr> (Some kw_jangaein) world0)
   \<and> post_reply (sample_env\<lparr>post_reply := \<lambda>n. Transport_failure\<rparr>) (post_calls world0) = Transport_failure
   \<and> \<not> fst (send_webhook (sample_env\<lparr>post_reply := \<lambda>n. Transport_failure\<rparr>)
              (SeoulMetroMonitor (ascii ''https://hook''))
        \<lparr>title = title_rally_notice, date = ascii ''2024-05-01'', link = []\<rparr> (Some kw_jangaein) world0)
   \<and> post_reply (sample_env\<lparr>post_reply := \<lambda>n. Response 500 []\<rparr>) (post_calls world0) = Response 500 []
   \<and> (500::nat) \<noteq> 200
   \<and> \<not> fst (send_webhook (sample_env\<lparr>post_reply := \<lambda>n. Response 500 []\<rparr>)
              (SeoulMetroMonitor (ascii ''https://hook''))
        \<lparr>title = title_rally_notice, date = ascii ''2024-05-01'', link = []\<rparr> (Some kw_jangaein) world0)"
proof -
  let ?p = "\<lparr>title = title_rally_notice, date = ascii ''2024-05-01'', link = []\<rparr>"
  let ?m = "SeoulMetroMonitor (ascii ''https://hook'')"
  let ?E1 = "sample_env\<lparr>post_reply := \<lambda>n. Transport_failure\<rparr>"
  let ?E2 = "sample_env\<lparr>post_reply := \<lambda>n. Response 500 []\<rparr>"
  have a: "post_reply sample_env (post_calls world0) = Response 200 []"
    by (simp add: sample_env_def)
  have b: "post_reply ?E1 (post_calls world0) = Transport_failure" by simp
  have c: "post_reply ?E2 (post_calls world0) = Response 500 [] \<and> (500::nat) \<noteq> 200" by simp
  from send_webhook_status_200 [of sample_env ?m ?p "Some kw_jangaein" world0] a
  have r1: "fst (send_webhook sample_env ?m ?p (Some kw_jangaein) world0)" by blast
  from send_webhook_status_200 [of ?E1 ?m ?p "Some kw_jangaein" world0] b
  have r2: "\<not> fst (send_webhook ?E1 ?m ?p (Some kw_jangaein) world0)" by blast
  from send_webhook_status_200 [of ?E2 ?m ?p "Some kw_jangaein" world0 500 "[]"] c
  have r3: "\<not> fst (send_webhook ?E2 ?m ?p (Some kw_jangaein) world0)" by blast
  from a b c r1 r2 r3 show ?thesis by blast
qed

section \<open>The loop over the posts\<close>

lemma process_post_skip:
  "\<not> is_today_post (now_at E (clock_reads w)) (PStr (date p)) \<Longrightarrow>
   process_post E self p (ns, tc, w) = (ns, tc, w\<lparr>clock_reads := Suc (clock_reads w)\<rparr>)"
  by (simp add: process_post_def datetime_now_def)

lemma process_post_no_keyword:
  "is_today_post (now_at E (clock_reads w)) (PStr (date p)) \<Longrightarrow>
   \<not> fst (check_keywords (py_lower E) self (title p)) \<Longrightarrow>
   process_post E self p (ns, tc, w) =
     (ns, tc + 1, emit (Call_check_keywords p) (w\<lparr>clock_reads := Suc (clock_reads w)\<rparr>))"
  by (cases "check_keywords (py_lower E) self (title p)")
     (simp add: process_post_def datetime_now_def Let_def)

lemma process_post_keyword:
  assumes "is_today_post (now_at E (clock_reads w)) (PStr (date p))"
    and "check_keywords (py_lower E) self (title p) = (True, k)"
  shows "\<exists>ok w1.
     process_post E self p (ns, tc, w) = ((if ok then ns + 1 else ns), tc + 1, snd (send_webhook E self p k w1))
     \<and> trace w1 = trace w @ [Call_check_keywords p, Print Log_match_found,
          Print (Log_match_title (title p)), Print (Log_match_keyword k), Print (Log_match_date (date p))]
     \<and> clock_reads w1 = Suc (clock_reads w) \<and> post_calls w1 = post_calls w"
proof -
  let ?w1 = "say (Log_match_date (date p)) (say (Log_match_keyword k) (say (Log_match_title (title p))
     (say Log_match_found (emit (Call_check_keywords p) (w\<lparr>clock_reads := Suc (clock_reads w)\<rparr>)))))"
  obtain ok w3 where sw: "send_webhook E self p k ?w1 = (ok, w3)"
    by (cases "send_webhook E self p k ?w1")
  with assms have "process_post E self p (ns, tc, w)
      = ((if ok then ns + 1 else ns), tc + 1, snd (send_webhook E self p k ?w1))"
    by (simp add: process_post_def datetime_now_def Let_def)
  moreover have "trace ?w1 = trace w @ [Call_check_keywords p, Print Log_match_found,
          Print (Log_match_title (title p)), Print (Log_match_keyword k), Print (Log_match_date (date p))]"
    by (simp add: say_fields emit_fields)
  moreover have "clock_reads ?w1 = Suc (clock_reads w) \<and> post_calls ?w1 = post_calls w"
    by (simp add: say_fields emit_fields)
  ultimately show ?thesis by blast
qed

section \<open>A run of the monitor\<close>

lemma parse_row_trace: "trace (snd (parse_row E cells w)) = trace w"
  by (simp add: parse_row_def datetime_now_def Let_def split: prod.splits)

lemma parse_rows_trace: "trace (snd (parse_rows E rows acc w)) = trace w"
proof (induction rows arbitrary: acc w)
  case Nil
  show ?case by simp
next
  case (Cons r rs)
  obtain o1 w1 where pr: "parse_row E r w = (o1, w1)" by (cases "parse_row E r w")
  from parse_row_trace [of E r w] pr have t: "trace w1 = trace w" by simp
  show ?case using pr t Cons.IH by (cases o1) simp_all
qed

lemma parse_rows_trace_eq: "parse_rows E rows acc w = (ps, w') \<Longrightarrow> trace w' = trace w"
  using parse_rows_trace [of E rows acc w] by simp

lemma parse_board_posts_trace: "trace (snd (parse_board_posts E html w)) = trace w"
  by (auto simp: parse_board_posts_def Let_def dest: parse_rows_trace_eq
      split: sum.splits prod.splits)

text \<open>The start of \<open>monitor_posts\<close>: four lines are printed and the board is fetched.\<close>

lemma monitor_posts_no_content:
  assumes "get_reply E = Transport_failure
           \<or> (\<exists>status_code body. get_reply E = Response status_code body \<and> (status_code \<noteq> 200 \<or> body = []))"
  shows "\<exists>w'. monitor_posts E self w = (Inr (), w')
          \<and> posts_of (trace w') = posts_of (trace w)
          \<and> matcher_calls_of (trace w') = matcher_calls_of (trace w)
          \<and> gets_of (trace w') = gets_of (trace w) @ [self_url self]
          \<and> last (trace w') = Print Log_fetch_failed"
  using assms
  by (auto simp: monitor_posts_def fetch_board_content_def datetime_now_def Let_def
      say_fields emit_fields posts_of_append matcher_calls_of_append gets_of_append)

lemma monitor_posts_content:
  assumes "get_reply E = Response 200 html" and "html \<noteq> []"
  shows "\<exists>w3. trace w3 = trace w @ [Print (Log_start (strftime_ymd_hms (now_at E (clock_reads w)))),
                    Print (Log_url (self_url self)), Print (Log_keywords (self_keywords self)),
                    Print Log_today_only, Http_get (self_url self)]
          \<and> monitor_posts E self w =
              (case parse_board_posts E html w3 of
                 (Inl e, w4) \<Rightarrow> (Inl e, w4)
               | (Inr posts, w4) \<Rightarrow>
                   (let w5 = say (Log_post_count (length posts)) w4
                    in if posts = [] then (Inr (), say Log_no_posts w5)
                       else
                         (case monitor_loop E self posts (0, 0, w5) of
                            (notifications_sent, today_posts_count, w6) \<Rightarrow>
                              (let w7 = say (Log_today_count today_posts_count) w6;
                                   w8 = (if notifications_sent > 0
                                         then say (Log_sent_total notifications_sent) w7
                                         else say Log_no_match w7)
                               in (Inr (), say Log_done w8)))))"
proof -
  let ?w3 = "emit (Http_get (self_url self)) (say Log_today_only
                      (say (Log_keywords (self_keywords self))
                        (say (Log_url (self_url self))
                          (say (Log_start (strftime_ymd_hms (now_at E (clock_reads w))))
                             (w\<lparr>clock_reads := Suc (clock_reads w)\<rparr>)))))"
  have t: "trace ?w3 = trace w @ [Print (Log_start (strftime_ymd_hms (now_at E (clock_reads w)))),
                    Print (Log_url (self_url self)), Print (Log_keywords (self_keywords self)),
                    Print Log_today_only, Http_get (self_url self)]"
    by (simp add: say_fields emit_fields)
  have f: "fetch_board_content E self (say Log_today_only
                      (say (Log_keywords (self_keywords self))
                        (say (Log_url (self_url self))
                          (say (Log_start (strftime_ymd_hms (now_at E (clock_reads w))))
                             (w\<lparr>clock_reads := Suc (clock_reads w)\<rparr>))))) = (Some html, ?w3)"
    using assms(1) by (simp add: fetch_board_content_def Let_def)
  have "monitor_posts E self w =
              (case parse_board_posts E html ?w3 of
                 (Inl e, w4) \<Rightarrow> (Inl e, w4)
               | (Inr posts, w4) \<Rightarrow>
                   (let w5 = say (Log_post_count (length posts)) w4
                    in if posts = [] then (Inr (), say Log_no_posts w5)
                       else
                         (case monitor_loop E self posts (0, 0, w5) of
                            (notifications_sent, today_posts_count, w6) \<Rightarrow>
                              (let w7 = say (Log_today_count today_posts_count) w6;
                                   w8 = (if notifications_sent > 0
                                         then say (Log_sent_total notifications_sent) w7
                                         else say Log_no_match w7)
                               in (Inr (), say Log_done w8)))))"
    unfolding monitor_posts_def datetime_now_def using f assms(2) by (simp add: Let_def)
  with t show ?thesis by blast
qed

lemma parse_row_None_iff:
  "fst (parse_row E cells w) = None
     \<longleftrightarrow> (length cells < 3 \<or> fst (find_title (py_digit E) cells) = [])"
  by (auto simp: parse_row_def datetime_now_def Let_def split: prod.splits)

lemma parse_rows_empty_iff:
  "fst (parse_rows E rows acc w) = []
     \<longleftrightarrow> acc = [] \<and> (\<forall>r \<in> set rows. length r < 3 \<or> fst (find_title (py_digit E) r) = [])"
proof (induction rows arbitrary: acc w)
  case Nil
  show ?case by simp
next
  case (Cons r rs)
  obtain o1 w1 where pr: "parse_row E r w = (o1, w1)" by (cases "parse_row E r w")
  from parse_row_None_iff [of E r w] pr
  have n: "o1 = None \<longleftrightarrow> (length r < 3 \<or> fst (find_title (py_digit E) r) = [])" by simp
  show ?case
  proof (cases o1)
    case None
    with pr have "parse_rows E (r # rs) acc w = parse_rows E rs acc w1" by simp
    with Cons.IH [of acc w1] n None show ?thesis by simp
  next
    case (Some q)
    with pr have "parse_rows E (r # rs) acc w = parse_rows E rs (acc @ [q]) w1" by simp
    with Cons.IH [of "acc @ [q]" w1] n Some show ?thesis by simp
  qed
qed

lemma parse_rows_empty_indep:
  "fst (parse_rows E rows [] w) = [] \<Longrightarrow> fst (parse_rows E rows [] w2) = []"
  by (simp add: parse_rows_empty_iff)

lemma parse_board_posts_empty_indep:
  assumes "fst (parse_board_posts E html w) = Inr []"
  shows "fst (parse_board_posts E html w2) = Inr []"
proof (cases "html = []")
  case True
  then show ?thesis by (simp add: parse_board_posts_def)
next
  case False
  show ?thesis
  proof (cases "beautiful_soup E html")
    case (Inl e)
    with False assms show ?thesis by (simp add: parse_board_posts_def)
  next
    case (Inr sp)
    let ?rows = "if select_rows sp possible_selectors = [] then soup_find_all_tr sp
                 else select_rows sp possible_selectors"
    have u: "fst (parse_board_posts E html v) = Inr (fst (parse_rows E ?rows [] v))" for v
      using False Inr by (simp add: parse_board_posts_def Let_def split: prod.splits)
    from assms u [of w] have "fst (parse_rows E ?rows [] w) = []" by simp
    then have "fst (parse_rows E ?rows [] w2) = []" by (rule parse_rows_empty_indep)
    with u [of w2] show ?thesis by simp
  qed
qed

lemma select_rows_none: "\<forall>selector. soup_select sp selector = [] \<Longrightarrow> select_rows sp sels = []"
  by (induction sels) (simp_all add: Let_def)

lemma parse_board_posts_no_rows:
  assumes "beautiful_soup E html = Inr sp" and "\<forall>selector. soup_select sp selector = []"
    and "soup_find_all_tr sp = []"
  shows "parse_board_posts E html w = (Inr [], w)"
  using assms by (simp add: parse_board_posts_def select_rows_none)

lemma parse_board_posts_raises:
  "fst (parse_board_posts E html w) = Inl e \<longleftrightarrow> html \<noteq> [] \<and> beautiful_soup E html = Inl e"
  by (auto simp: parse_board_posts_def Let_def split: sum.splits prod.splits)

lemma monitor_posts_empty_parse:
  assumes "get_reply E = Response 200 html" and "fst (parse_board_posts E html w0) = Inr []"
  shows "\<exists>w'. monitor_posts E self w = (Inr (), w')
          \<and> posts_of (trace w') = posts_of (trace w)
          \<and> matcher_calls_of (trace w') = matcher_calls_of (trace w)"
proof (cases "html = []")
  case True
  with assms(1) monitor_posts_no_content [of E self w] show ?thesis by blast
next
  case False
  from monitor_posts_content [OF assms(1) False, where self = self and w = w]
  obtain w3 where t3: "trace w3 = trace w @ [Print (Log_start (strftime_ymd_hms (now_at E (clock_reads w)))),
                    Print (Log_url (self_url self)), Print (Log_keywords (self_keywords self)),
                    Print Log_today_only, Http_get (self_url self)]"
    and mp: "monitor_posts E self w =
              (case parse_board_posts E html w3 of
                 (Inl e, w4) \<Rightarrow> (Inl e, w4)
               | (Inr posts, w4) \<Rightarrow>
                   (let w5 = say (Log_post_count (length posts)) w4
                    in if posts = [] then (Inr (), say Log_no_posts w5)
                       else
                         (case monitor_loop E self posts (0, 0, w5) of
                            (notifications_sent, today_posts_count, w6) \<Rightarrow>
                              (let w7 = say (Log_today_count today_posts_count) w6;
                                   w8 = (if notifications_sent > 0
                                         then say (Log_sent_total notifications_sent) w7
                                         else say Log_no_match w7)
                               in (Inr (), say Log_done w8)))))" by blast
  obtain r4 w4 where pb: "parse_board_posts E html w3 = (r4, w4)"
    by (cases "parse_board_posts E html w3")
  from parse_board_posts_empty_indep [OF assms(2), of w3] pb have r4: "r4 = Inr []" by simp
  from parse_board_posts_trace [of E html w3] pb have t4: "trace w4 = trace w3" by simp
  from mp pb r4 have res: "monitor_posts E self w = (Inr (), say Log_no_posts (say (Log_post_count 0) w4))"
    by (simp add: Let_def)
  have "posts_of (trace (say Log_no_posts (say (Log_post_count 0) w4))) = posts_of (trace w)"
    by (simp add: say_fields t4 t3 posts_of_append)
  moreover have "matcher_calls_of (trace (say Log_no_posts (say (Log_post_count 0) w4)))
       = matcher_calls_of (trace w)"
    by (simp add: say_fields t4 t3 matcher_calls_of_append)
  ultimately show ?thesis using res by blast
qed

lemma monitor_posts_result:
  "fst (monitor_posts E self w) =
     (case get_reply E of
        Transport_failure \<Rightarrow> Inr ()
      | Response status_code html \<Rightarrow>
          if status_code = 200 \<and> html \<noteq> []
          then (case beautiful_soup E html of Inl e \<Rightarrow> Inl e | Inr sp \<Rightarrow> Inr ())
          else Inr ())"
proof (cases "get_reply E")
  case Transport_failure
  with monitor_posts_no_content [of E self w] show ?thesis by auto
next
  case (Response status_code html)
  show ?thesis
  proof (cases "status_code = 200 \<and> html \<noteq> []")
    case False
    with Response monitor_posts_no_content [of E self w] show ?thesis by auto
  next
    case True
    with Response have g: "get_reply E = Response 200 html" and h: "html \<noteq> []" by simp_all
    from monitor_posts_content [OF g h, where self = self and w = w]
    obtain w3 where mp: "monitor_posts E self w =
              (case parse_board_posts E html w3 of
                 (Inl e, w4) \<Rightarrow> (Inl e, w4)
               | (Inr posts, w4) \<Rightarrow>
                   (let w5 = say (Log_post_count (length posts)) w4
                    in if posts = [] then (Inr (), say Log_no_posts w5)
                       else
                         (case monitor_loop E self posts (0, 0, w5) of
                            (notifications_sent, today_posts_count, w6) \<Rightarrow>
                              (let w7 = say (Log_today_count today_posts_count) w6;
                                   w8 = (if notifications_sent > 0
                                         then say (Log_sent_total notifications_sent) w7
                                         else say Log_no_match w7)
                               in (Inr (), say Log_done w8)))))" by blast
    obtain r4 w4 where pb: "parse_board_posts E html w3 = (r4, w4)"
      by (cases "parse_board_posts E html w3")
    show ?thesis
    proof (cases r4)
      case (Inl e)
      with pb parse_board_posts_raises [of E html w3 e] have "beautiful_soup E html = Inl e" by simp
      moreover from mp pb Inl have "fst (monitor_posts E self w) = Inl e" by simp
      ultimately show ?thesis using Response True by simp
    next
      case (Inr posts)
      have "beautiful_soup E html \<noteq> Inl e" for e
        using pb Inr parse_board_posts_raises [of E html w3 e] h by auto
      then obtain sp where sp: "beautiful_soup E html = Inr sp"
        by (cases "beautiful_soup E html") auto
      from mp pb Inr have "fst (monitor_posts E self w) = Inr ()"
        by (simp add: Let_def split: prod.splits)
      with sp Response True show ?thesis by simp
    qed
  qed
qed

section \<open>The entry point and its exit codes\<close>

lemma main_missing:
  "main E None w = (Exit 1, say Log_no_webhook_url w)"
  "main E (Some []) w = (Exit 1, say Log_no_webhook_url w)"
  by (simp_all add: main_def)

lemma main_run:
  "webhook_url \<noteq> [] \<Longrightarrow>
   main E (Some webhook_url) w =
     (case monitor_posts E (SeoulMetroMonitor webhook_url) w of
        (Inr u, w1) \<Rightarrow> (Exit 0, w1)
      | (Inl e, w1) \<Rightarrow> (Uncaught e, w1))"
  by (simp add: main_def)

lemma main_exit_0:
  assumes "webhook_url \<noteq> []"
    and "fst (monitor_posts E (SeoulMetroMonitor webhook_url) w) = Inr ()"
  shows "main E (Some webhook_url) w = (Exit 0, snd (monitor_posts E (SeoulMetroMonitor webhook_url) w))"
  using assms by (cases "monitor_posts E (SeoulMetroMonitor webhook_url) w") (simp add: main_run)

text \<open>
  C9. When the environment has no webhook URL (or an empty one) the process exits with
  code 1 and has made no network call: the only thing it did is print one line.
  Otherwise every run in which \<open>monitor_posts\<close> returns exits with code 0, and
  \<open>monitor_posts\<close> returns whenever the HTML parser does not raise, whatever the webhook
  answers.
\<close>

theorem main_exit_codes:
  "main E None w = (Exit 1, w\<lparr>trace := trace w @ [Print Log_no_webhook_url]\<rparr>)
   \<and> main E (Some []) w = (Exit 1, w\<lparr>trace := trace w @ [Print Log_no_webhook_url]\<rparr>)
   \<and> (webhook_url \<noteq> [] \<and> fst (monitor_posts E (SeoulMetroMonitor webhook_url) w) = Inr ()
        \<longrightarrow> fst (main E (Some webhook_url) w) = Exit 0)
   \<and> (webhook_url \<noteq> []
        \<and> \<not> (\<exists>html e. get_reply E = Response 200 html \<and> html \<noteq> [] \<and> beautiful_soup E html = Inl e)
        \<longrightarrow> fst (main E (Some webhook_url) w) = Exit 0)"
proof (intro conjI impI)
  show "main E None w = (Exit 1, w\<lparr>trace := trace w @ [Print Log_no_webhook_url]\<rparr>)"
    by (simp add: main_def say_def emit_def)
next
  show "main E (Some []) w = (Exit 1, w\<lparr>trace := trace w @ [Print Log_no_webhook_url]\<rparr>)"
    by (simp add: main_def say_def emit_def)
next
  assume "webhook_url \<noteq> [] \<and> fst (monitor_posts E (SeoulMetroMonitor webhook_url) w) = Inr ()"
  then show "fst (main E (Some webhook_url) w) = Exit 0"
    by (simp add: main_exit_0)
next
  assume a: "webhook_url \<noteq> []
        \<and> \<not> (\<exists>html e. get_reply E = Response 200 html \<and> html \<noteq> [] \<and> beautiful_soup E html = Inl e)"
  have "fst (monitor_posts E (SeoulMetroMonitor webhook_url) w) = Inr ()"
  proof (cases "get_reply E")
    case Transport_failure
    then show ?thesis by (simp add: monitor_posts_result)
  next
    case (Response status_code html)
    show ?thesis
    proof (cases "status_code = 200 \<and> html \<noteq> []")
      case False
      with Response show ?thesis by (auto simp: monitor_posts_result)
    next
      case True
      with Response a have "\<forall>e. beautiful_soup E html \<noteq> Inl e" by auto
      then obtain sp where "beautiful_soup E html = Inr sp"
        by (cases "beautiful_soup E html") auto
      with Response True show ?thesis by (simp add: monitor_posts_result)
    qed
  qed
  with a show "fst (main E (Some webhook_url) w) = Exit 0"
    by (simp add: main_exit_0)
qed

theorem main_exit_codes_witness:
  "ascii ''https://hook'' \<noteq> []
   \<and> fst (monitor_posts sample_env (SeoulMetroMonitor (ascii ''https://hook'')) world0) = Inr ()
   \<and> fst (main sample_env (Some (ascii ''https://hook'')) world0) = Exit 0
   \<and> \<not> (\<exists>html e. get_reply (sample_env\<lparr>post_reply := \<lambda>n. Response 500 []\<rparr>) = Response 200 html
            \<and> html \<noteq> []
            \<and> beautiful_soup (sample_env\<lparr>post_reply := \<lambda>n. Response 500 []\<rparr>) html = Inl e)
   \<and> fst (main (sample_env\<lparr>post_reply := \<lambda>n. Response 500 []\<rparr>) (Some (ascii ''https://hook'')) world0)
       = Exit 0"
proof -
  let ?u = "ascii ''https://hook''"
  let ?E = "sample_env\<lparr>post_reply := \<lambda>n. Response 500 []\<rparr>"
  have u: "?u \<noteq> []" by (simp add: ascii_def)
  have m: "fst (monitor_posts sample_env (SeoulMetroMonitor ?u) world0) = Inr ()"
    by (simp add: monitor_posts_result sample_env_def)
  have n: "\<not> (\<exists>html e. get_reply ?E = Response 200 html \<and> html \<noteq> [] \<and> beautiful_soup ?E html = Inl e)"
    by (simp add: sample_env_def)
  from main_exit_codes [of sample_env world0 ?u] u m
  have r1: "fst (main sample_env (Some ?u) world0) = Exit 0" by blast
  from main_exit_codes [of ?E world0 ?u] u n
  have r2: "fst (main ?E (Some ?u) world0) = Exit 0" by blast
  from u m r1 n r2 show ?thesis by blast
qed

text \<open>
  Runs with nothing to notify. When the fetch gives no content (a transport failure or
  a status other than 200) or the parser gives no post, \<open>monitor_posts\<close> issues no POST
  and returns, and the process ends with exit code 0. An empty page and a page in which
  no row is found both make the parser give no post.
\<close>

theorem monitor_posts_nothing_to_notify:
  "(get_reply E = Transport_failure
      \<or> (\<exists>status_code body. get_reply E = Response status_code body \<and> status_code \<noteq> 200)
      \<or> (\<exists>html w0. get_reply E = Response 200 html \<and> fst (parse_board_posts E html w0) = Inr [])
    \<longrightarrow> fst (monitor_posts E self w) = Inr ()
        \<and> posts_of (trace (snd (monitor_posts E self w))) = posts_of (trace w)
        \<and> (webhook_url \<noteq> [] \<longrightarrow>
             fst (main E (Some webhook_url) w) = Exit 0
             \<and> posts_of (trace (snd (main E (Some webhook_url) w))) = posts_of (trace w)))
   \<and> parse_board_posts E [] w = (Inr [], w)
   \<and> (beautiful_soup E markup = Inr sp \<and> (\<forall>selector. soup_select sp selector = [])
        \<and> soup_find_all_tr sp = []
      \<longrightarrow> parse_board_posts E markup w = (Inr [], w))"
proof (intro conjI impI)
  assume a: "get_reply E = Transport_failure
      \<or> (\<exists>status_code body. get_reply E = Response status_code body \<and> status_code \<noteq> 200)
      \<or> (\<exists>html w0. get_reply E = Response 200 html \<and> fst (parse_board_posts E html w0) = Inr [])"
  have g: "\<exists>w'. monitor_posts E m w = (Inr (), w') \<and> posts_of (trace w') = posts_of (trace w)" for m
  proof -
    from a consider
        "get_reply E = Transport_failure
           \<or> (\<exists>status_code body. get_reply E = Response status_code body \<and> (status_code \<noteq> 200 \<or> body = []))"
      | "\<exists>html w0. get_reply E = Response 200 html \<and> fst (parse_board_posts E html w0) = Inr []"
      by blast
    then show ?thesis
    proof cases
      case 1
      from monitor_posts_no_content [OF 1, of m w] show ?thesis by blast
    next
      case 2
      then obtain html w0 where "get_reply E = Response 200 html"
        "fst (parse_board_posts E html w0) = Inr []" by blast
      from monitor_posts_empty_parse [OF this, of m w] show ?thesis by blast
    qed
  qed
  from g [of self] show "fst (monitor_posts E self w) = Inr ()" by auto
  from g [of self] show "posts_of (trace (snd (monitor_posts E self w))) = posts_of (trace w)"
    by auto
  assume u: "webhook_url \<noteq> []"
  from g [of "SeoulMetroMonitor webhook_url"]
  obtain w' where w': "monitor_posts E (SeoulMetroMonitor webhook_url) w = (Inr (), w')"
    "posts_of (trace w') = posts_of (trace w)" by blast
  from main_exit_0 [OF u, of E w] w' have me: "main E (Some webhook_url) w = (Exit 0, w')" by simp
  from me show "fst (main E (Some webhook_url) w) = Exit 0" by simp
  from me w' show "posts_of (trace (snd (main E (Some webhook_url) w))) = posts_of (trace w)"
    by simp
next
  show "parse_board_posts E [] w = (Inr [], w)" by (simp add: parse_board_posts_def)
next
  assume "beautiful_soup E markup = Inr sp \<and> (\<forall>selector. soup_select sp selector = [])
        \<and> soup_find_all_tr sp = []"
  then show "parse_board_posts E markup w = (Inr [], w)"
    by (simp add: parse_board_posts_no_rows)
qed

theorem monitor_posts_nothing_to_notify_witness:
  "get_reply (sample_env\<lparr>get_reply := Response 500 []\<rparr>) = Response 500 []
   \<and> (500::nat) \<noteq> 200
   \<and> ascii ''https://hook'' \<noteq> []
   \<and> fst (monitor_posts (sample_env\<lparr>get_reply := Response 500 []\<rparr>)
            (SeoulMetroMonitor (ascii ''https://hook'')) world0) = Inr ()
   \<and> posts_of (trace (snd (monitor_posts (sample_env\<lparr>get_reply := Response 500 []\<rparr>)
            (SeoulMetroMonitor (ascii ''https://hook'')) world0))) = []
   \<and> fst (main (sample_env\<lparr>get_reply := Response 500 []\<rparr>) (Some (ascii ''https://hook'')) world0)
       = Exit 0
   \<and> parse_board_posts
        (sample_env\<lparr>beautiful_soup := \<lambda>html. Inr \<lparr>soup_select = \<lambda>selector. [], soup_find_all_tr = []\<rparr>\<rparr>)
        (ascii ''<p>'') world0 = (Inr [], world0)
   \<and> posts_of (trace (snd (monitor_posts
        (sample_env\<lparr>beautiful_soup := \<lambda>html. Inr \<lparr>soup_select = \<lambda>selector. [], soup_find_all_tr = []\<rparr>,
                    get_reply := Response 200 (ascii ''<p>'')\<rparr>)
        (SeoulMetroMonitor (ascii ''https://hook'')) world0))) = []"
proof -
  let ?u = "ascii ''https://hook''"
  let ?m = "SeoulMetroMonitor ?u"
  let ?sp = "\<lparr>soup_select = \<lambda>selector. [], soup_find_all_tr = []\<rparr>"
  let ?E1 = "sample_env\<lparr>get_reply := Response 500 []\<rparr>"
  let ?E2 = "sample_env\<lparr>beautiful_soup := \<lambda>html. Inr ?sp\<rparr>"
  let ?E3 = "sample_env\<lparr>beautiful_soup := \<lambda>html. Inr ?sp, get_reply := Response 200 (ascii ''<p>'')\<rparr>"
  have u: "?u \<noteq> []" by (simp add: ascii_def)
  have p0: "posts_of (trace world0) = []" by (simp add: world0_def)
  have g1: "get_reply ?E1 = Response 500 [] \<and> (500::nat) \<noteq> 200" by simp
  then have h1: "get_reply ?E1 = Transport_failure
      \<or> (\<exists>status_code body. get_reply ?E1 = Response status_code body \<and> status_code \<noteq> 200)
      \<or> (\<exists>html w0. get_reply ?E1 = Response 200 html \<and> fst (parse_board_posts ?E1 html w0) = Inr [])"
    by blast
  from monitor_posts_nothing_to_notify [of ?E1 ?m world0 ?u] h1 u p0
  have r1: "fst (monitor_posts ?E1 ?m world0) = Inr ()
     \<and> posts_of (trace (snd (monitor_posts ?E1 ?m world0))) = []
     \<and> fst (main ?E1 (Some ?u) world0) = Exit 0" by simp
  have s2: "beautiful_soup ?E2 (ascii ''<p>'') = Inr ?sp \<and> (\<forall>selector. soup_select ?sp selector = [])
        \<and> soup_find_all_tr ?sp = []" by simp
  from monitor_posts_nothing_to_notify [of ?E2 ?m world0 ?u "ascii ''<p>''" ?sp] s2
  have r2: "parse_board_posts ?E2 (ascii ''<p>'') world0 = (Inr [], world0)" by blast
  have s3: "beautiful_soup ?E3 (ascii ''<p>'') = Inr ?sp \<and> (\<forall>selector. soup_select ?sp selector = [])
        \<and> soup_find_all_tr ?sp = []" by simp
  from monitor_posts_nothing_to_notify [of ?E3 ?m world0 ?u "ascii ''<p>''" ?sp] s3
  have "parse_board_posts ?E3 (ascii ''<p>'') world0 = (Inr [], world0)" by blast
  then have "get_reply ?E3 = Response 200 (ascii ''<p>'')
      \<and> fst (parse_board_posts ?E3 (ascii ''<p>'') world0) = Inr []" by simp
  then have h3: "get_reply ?E3 = Transport_failure
      \<or> (\<exists>status_code body. get_reply ?E3 = Response status_code body \<and> status_code \<noteq> 200)
      \<or> (\<exists>html w0. get_reply ?E3 = Response 200 html \<and> fst (parse_board_posts ?E3 html w0) = Inr [])"
    by blast
  from monitor_posts_nothing_to_notify [of ?E3 ?m world0 ?u] h3 p0
  have r3: "posts_of (trace (snd (monitor_posts ?E3 ?m world0))) = []" by simp
  from g1 u r1 r2 r3 show ?thesis by blast
qed

section \<open>The turns of the loop\<close>

text \<open>The world a turn of the loop leaves does not depend on the two counters.\<close>

lemma process_post_world:
  "snd (snd (process_post E self p (ns, tc, w))) = snd (snd (process_post E self p (0, 0, w)))"
  by (simp add: process_post_def Let_def split: prod.splits)

lemma monitor_loop_world:
  "snd (snd (monitor_loop E self ps (ns, tc, w))) = snd (snd (monitor_loop E self ps (ms, uc, w)))"
proof (induction ps arbitrary: ns tc ms uc w)
  case Nil
  show ?case by simp
next
  case (Cons p ps)
  obtain a b w1 where l: "process_post E self p (ns, tc, w) = (a, b, w1)"
    by (cases "process_post E self p (ns, tc, w)")
  obtain c d w2 where r: "process_post E self p (ms, uc, w) = (c, d, w2)"
    by (cases "process_post E self p (ms, uc, w)")
  from process_post_world [of E self p ns tc w] process_post_world [of E self p ms uc w] l r
  have "w2 = w1" by simp
  with l r Cons.IH [of a b w1 c d] show ?case by simp
qed

lemma monitor_loop_append:
  "monitor_loop E self (xs @ ys) s = monitor_loop E self ys (monitor_loop E self xs s)"
  by (induction xs arbitrary: s) simp_all

lemma turn_world_0: "turn_world E self ps w 0 = w"
  by (simp add: turn_world_def)

lemma turn_world_end:
  "turn_world E self ps w (length ps) = snd (snd (monitor_loop E self ps (0, 0, w)))"
  by (simp add: turn_world_def)

lemma turn_world_Suc:
  assumes "i < length ps"
  shows "turn_world E self ps w (Suc i)
           = snd (snd (process_post E self (ps ! i) (0, 0, turn_world E self ps w i)))"
proof -
  obtain a b w1 where l: "monitor_loop E self (take i ps) (0, 0, w) = (a, b, w1)"
    by (cases "monitor_loop E self (take i ps) (0, 0, w)")
  then have t: "turn_world E self ps w i = w1" by (simp add: turn_world_def)
  have "take (Suc i) ps = take i ps @ [ps ! i]"
    using assms by (rule take_Suc_conv_app_nth)
  then have "monitor_loop E self (take (Suc i) ps) (0, 0, w)
      = process_post E self (ps ! i) (a, b, w1)"
    using l by (simp add: monitor_loop_append)
  then have "turn_world E self ps w (Suc i) = snd (snd (process_post E self (ps ! i) (a, b, w1)))"
    by (simp add: turn_world_def)
  also have "\<dots> = snd (snd (process_post E self (ps ! i) (0, 0, w1)))"
    by (rule process_post_world)
  finally show ?thesis unfolding t .
qed

text \<open>What one turn of the loop adds to the trace.\<close>

lemma process_post_calls:
  "matcher_calls_of (trace (snd (snd (process_post E self p (ns, tc, w)))))
     = matcher_calls_of (trace w)
       @ (if is_today_post (now_at E (clock_reads w)) (PStr (date p)) then [p] else [])"
proof (cases "is_today_post (now_at E (clock_reads w)) (PStr (date p))")
  case False
  then show ?thesis by (simp add: process_post_skip)
next
  case True
  obtain b k where ck: "check_keywords (py_lower E) self (title p) = (b, k)"
    by (cases "check_keywords (py_lower E) self (title p)")
  show ?thesis
  proof (cases b)
    case False
    with ck True show ?thesis
      by (simp add: process_post_no_keyword emit_fields matcher_calls_of_append)
  next
    case b: True
    from b ck have ck': "check_keywords (py_lower E) self (title p) = (True, k)" by simp
    from process_post_keyword [OF True ck', of ns tc]
    obtain ok w1 where pp: "process_post E self p (ns, tc, w)
         = ((if ok then ns + 1 else ns), tc + 1, snd (send_webhook E self p k w1))"
      and t1: "trace w1 = trace w @ [Call_check_keywords p, Print Log_match_found,
          Print (Log_match_title (title p)), Print (Log_match_keyword k), Print (Log_match_date (date p))]"
      by blast
    from send_webhook_trace [of E self p k w1]
    obtain logs where t2: "trace (snd (send_webhook E self p k w1)) =
       trace w1 @ Http_post (self_webhook_url self)
         \<lparr>title = title p, date = date p, link = link p,
          keyword = k, message = webhook_message k (title p),
          timestamp = isoformat (now_at E (clock_reads w1))\<rparr> # map Print logs" ..
    show ?thesis
      by (simp add: pp t2 t1 True matcher_calls_of_append matcher_calls_of_prints)
  qed
qed

lemma process_post_posts:
  "posts_of (trace (snd (snd (process_post E self p (ns, tc, w)))))
     = posts_of (trace w)
       @ (if is_today_post (now_at E (clock_reads w)) (PStr (date p))
             \<and> fst (check_keywords (py_lower E) self (title p))
          then [(self_webhook_url self,
                 \<lparr>title = title p, date = date p, link = link p,
                  keyword = snd (check_keywords (py_lower E) self (title p)),
                  message = webhook_message (snd (check_keywords (py_lower E) self (title p))) (title p),
                  timestamp = isoformat (now_at E (Suc (clock_reads w)))\<rparr>)]
          else [])"
proof (cases "is_today_post (now_at E (clock_reads w)) (PStr (date p))")
  case False
  then show ?thesis by (simp add: process_post_skip)
next
  case True
  obtain b k where ck: "check_keywords (py_lower E) self (title p) = (b, k)"
    by (cases "check_keywords (py_lower E) self (title p)")
  show ?thesis
  proof (cases b)
    case False
    with ck True show ?thesis
      by (simp add: process_post_no_keyword emit_fields posts_of_append)
  next
    case b: True
    from b ck have ck': "check_keywords (py_lower E) self (title p) = (True, k)" by simp
    from process_post_keyword [OF True ck', of ns tc]
    obtain ok w1 where pp: "process_post E self p (ns, tc, w)
         = ((if ok then ns + 1 else ns), tc + 1, snd (send_webhook E self p k w1))"
      and t1: "trace w1 = trace w @ [Call_check_keywords p, Print Log_match_found,
          Print (Log_match_title (title p)), Print (Log_match_keyword k), Print (Log_match_date (date p))]"
      and c1: "clock_reads w1 = Suc (clock_reads w)"
      by blast
    from send_webhook_trace [of E self p k w1]
    obtain logs where t2: "trace (snd (send_webhook E self p k w1)) =
       trace w1 @ Http_post (self_webhook_url self)
         \<lparr>title = title p, date = date p, link = link p,
          keyword = k, message = webhook_message k (title p),
          timestamp = isoformat (now_at E (clock_reads w1))\<rparr> # map Print logs" ..
    show ?thesis
      by (simp add: pp t2 t1 c1 True ck' posts_of_append posts_of_prints)
  qed
qed

text \<open>Each turn, read off the worlds the loop passes through.\<close>

lemma turn_skip:
  assumes "i < length ps"
    and "\<not> is_today_post (now_at E (clock_reads (turn_world E self ps w i))) (PStr (date (ps ! i)))"
  shows "turn_world E self ps w (Suc i)
           = (turn_world E self ps w i)\<lparr>clock_reads := Suc (clock_reads (turn_world E self ps w i))\<rparr>"
  using assms by (simp add: turn_world_Suc process_post_skip)

lemma turn_calls:
  assumes "i < length ps"
  shows "matcher_calls_of (trace (turn_world E self ps w (Suc i)))
           = matcher_calls_of (trace (turn_world E self ps w i))
             @ (if is_today_post (now_at E (clock_reads (turn_world E self ps w i))) (PStr (date (ps ! i)))
                then [ps ! i] else [])"
  unfolding turn_world_Suc [OF assms] by (rule process_post_calls)

lemma turn_posts:
  assumes "i < length ps"
  shows "posts_of (trace (turn_world E self ps w (Suc i)))
           = posts_of (trace (turn_world E self ps w i))
             @ (if is_today_post (now_at E (clock_reads (turn_world E self ps w i))) (PStr (date (ps ! i)))
                   \<and> fst (check_keywords (py_lower E) self (title (ps ! i)))
                then [(self_webhook_url self,
                       \<lparr>title = title (ps ! i), date = date (ps ! i), link = link (ps ! i),
                        keyword = snd (check_keywords (py_lower E) self (title (ps ! i))),
                        message = webhook_message (snd (check_keywords (py_lower E) self (title (ps ! i))))
                                    (title (ps ! i)),
                        timestamp = isoformat (now_at E (Suc (clock_reads (turn_world E self ps w i))))\<rparr>)]
                else [])"
  unfolding turn_world_Suc [OF assms] by (rule process_post_posts)

text \<open>Every POST and every matcher call of the loop comes from the turn of some post.\<close>

lemma turn_posts_origin:
  assumes "posts_of (trace w) = []"
  shows "k \<le> length ps \<Longrightarrow> x \<in> set (posts_of (trace (turn_world E self ps w k))) \<Longrightarrow>
     \<exists>i < k. is_today_post (now_at E (clock_reads (turn_world E self ps w i))) (PStr (date (ps ! i)))
        \<and> check_keywords (py_lower E) self (title (ps ! i)) = (True, keyword (snd x))
        \<and> title (snd x) = title (ps ! i) \<and> date (snd x) = date (ps ! i) \<and> link (snd x) = link (ps ! i)
        \<and> timestamp (snd x) = isoformat (now_at E (Suc (clock_reads (turn_world E self ps w i))))
        \<and> fst x = self_webhook_url self"
proof (induction k)
  case 0
  then show ?case using assms by (simp add: turn_world_0)
next
  case (Suc k)
  from Suc.prems(1) have k: "k < length ps" by simp
  let ?today = "is_today_post (now_at E (clock_reads (turn_world E self ps w k))) (PStr (date (ps ! k)))"
  let ?ck = "check_keywords (py_lower E) self (title (ps ! k))"
  let ?new = "(self_webhook_url self,
                       \<lparr>title = title (ps ! k), date = date (ps ! k), link = link (ps ! k),
                        keyword = snd ?ck,
                        message = webhook_message (snd ?ck) (title (ps ! k)),
                        timestamp = isoformat (now_at E (Suc (clock_reads (turn_world E self ps w k))))\<rparr>)"
  from Suc.prems(2) turn_posts [OF k, of E self w]
  consider (old) "x \<in> set (posts_of (trace (turn_world E self ps w k)))"
    | (new) "?today" "fst ?ck" "x = ?new"
    by (auto split: if_splits)
  then show ?case
  proof cases
    case old
    from Suc.IH [OF _ old] k obtain i where "i < k"
      "is_today_post (now_at E (clock_reads (turn_world E self ps w i))) (PStr (date (ps ! i)))
        \<and> check_keywords (py_lower E) self (title (ps ! i)) = (True, keyword (snd x))
        \<and> title (snd x) = title (ps ! i) \<and> date (snd x) = date (ps ! i) \<and> link (snd x) = link (ps ! i)
        \<and> timestamp (snd x) = isoformat (now_at E (Suc (clock_reads (turn_world E self ps w i))))
        \<and> fst x = self_webhook_url self" by auto
    then show ?thesis using less_Suc_eq by blast
  next
    case new
    from new(2) have "?ck = (True, snd ?ck)" by (cases ?ck) simp
    with new(1,3) have "is_today_post (now_at E (clock_reads (turn_world E self ps w k))) (PStr (date (ps ! k)))
        \<and> check_keywords (py_lower E) self (title (ps ! k)) = (True, keyword (snd x))
        \<and> title (snd x) = title (ps ! k) \<and> date (snd x) = date (ps ! k) \<and> link (snd x) = link (ps ! k)
        \<and> timestamp (snd x) = isoformat (now_at E (Suc (clock_reads (turn_world E self ps w k))))
        \<and> fst x = self_webhook_url self" by simp
    then show ?thesis by blast
  qed
qed

lemma turn_calls_origin:
  assumes "matcher_calls_of (trace w) = []"
  shows "k \<le> length ps \<Longrightarrow> q \<in> set (matcher_calls_of (trace (turn_world E self ps w k))) \<Longrightarrow>
     \<exists>i < k. q = ps ! i
        \<and> is_today_post (now_at E (clock_reads (turn_world E self ps w i))) (PStr (date (ps ! i)))"
proof (induction k)
  case 0
  then show ?case using assms by (simp add: turn_world_0)
next
  case (Suc k)
  from Suc.prems(1) have k: "k < length ps" by simp
  from Suc.prems(2) turn_calls [OF k, of E self w]
  consider (old) "q \<in> set (matcher_calls_of (trace (turn_world E self ps w k)))"
    | (new) "is_today_post (now_at E (clock_reads (turn_world E self ps w k))) (PStr (date (ps ! k)))"
        "q = ps ! k"
    by (auto split: if_splits)
  then show ?case
  proof cases
    case old
    from Suc.IH [OF _ old] k obtain i where "i < k"
      "q = ps ! i \<and> is_today_post (now_at E (clock_reads (turn_world E self ps w i))) (PStr (date (ps ! i)))"
      by auto
    then show ?thesis using less_Suc_eq by blast
  next
    case new
    then show ?thesis by blast
  qed
qed

section \<open>A page that the parser rejects\<close>

text \<open>A run in which the HTML parser rejects the page.\<close>

lemma monitor_posts_parser_raises:
  assumes "get_reply E = Response 200 html" and "html \<noteq> []"
    and "beautiful_soup E html = Inl e"
  shows "\<exists>w'. monitor_posts E self w = (Inl e, w')
          \<and> posts_of (trace w') = posts_of (trace w)
          \<and> matcher_calls_of (trace w') = matcher_calls_of (trace w)"
proof -
  from monitor_posts_content [OF assms(1,2), where self = self and w = w]
  obtain w3 where t3: "trace w3 = trace w @ [Print (Log_start (strftime_ymd_hms (now_at E (clock_reads w)))),
                    Print (Log_url (self_url self)), Print (Log_keywords (self_keywords self)),
                    Print Log_today_only, Http_get (self_url self)]"
    and mp: "monitor_posts E self w =
              (case parse_board_posts E html w3 of
                 (Inl e, w4) \<Rightarrow> (Inl e, w4)
               | (Inr posts, w4) \<Rightarrow>
                   (let w5 = say (Log_post_count (length posts)) w4
                    in if posts = [] then (Inr (), say Log_no_posts w5)
                       else
                         (case monitor_loop E self posts (0, 0, w5) of
                            (notifications_sent, today_posts_count, w6) \<Rightarrow>
                              (let w7 = say (Log_today_count today_posts_count) w6;
                                   w8 = (if notifications_sent > 0
                                         then say (Log_sent_total notifications_sent) w7
                                         else say Log_no_match w7)
                               in (Inr (), say Log_done w8)))))" by blast
  have pb: "parse_board_posts E html w3 = (Inl e, w3)"
    using assms(2,3) by (simp add: parse_board_posts_def)
  from mp pb have "monitor_posts E self w = (Inl e, w3)" by simp
  moreover have "posts_of (trace w3) = posts_of (trace w)"
    by (simp add: t3 posts_of_append)
  moreover have "matcher_calls_of (trace w3) = matcher_calls_of (trace w)"
    by (simp add: t3 matcher_calls_of_append)
  ultimately show ?thesis by blast
qed

lemma rejecting_env_fields:
  "get_reply rejecting_env = Response 200 rejected_markup"
  "beautiful_soup rejecting_env rejected_markup = Inl ParserRejectedMarkup"
  "rejected_markup \<noteq> []"
  by (simp_all add: rejecting_env_def rejected_markup_def ascii_def)

text \<open>
  C8, where the code departs from the claim. The board answers 200 with a page that the
  HTML parser rejects. The tree is built before the \<open>try\<close> of \<open>parse_board_posts\<close>, so
  the parser's exception is not turned into an empty list of posts: it leaves
  \<open>parse_board_posts\<close> and \<open>monitor_posts\<close>, and the process ends with an uncaught
  exception instead of exit code 0. No POST is made.
\<close>

theorem monitor_posts_rejected_markup:
  "fst (parse_board_posts rejecting_env rejected_markup world0) = Inl ParserRejectedMarkup
   \<and> fst (monitor_posts rejecting_env sample_monitor world0) = Inl ParserRejectedMarkup
   \<and> fst (main rejecting_env (Some (ascii ''https://hook'')) world0) = Uncaught ParserRejectedMarkup
   \<and> posts_of (trace (snd (main rejecting_env (Some (ascii ''https://hook'')) world0))) = []"
proof -
  have a: "fst (parse_board_posts rejecting_env rejected_markup world0) = Inl ParserRejectedMarkup"
    by (simp add: parse_board_posts_raises rejecting_env_fields)
  from monitor_posts_parser_raises [OF rejecting_env_fields(1,3,2), of sample_monitor world0]
  obtain w' where r: "monitor_posts rejecting_env sample_monitor world0 = (Inl ParserRejectedMarkup, w')"
    and p: "posts_of (trace w') = posts_of (trace world0)" by blast
  have u: "ascii ''https://hook'' \<noteq> []" by (simp add: ascii_def)
  from r have m: "main rejecting_env (Some (ascii ''https://hook'')) world0
      = (Uncaught ParserRejectedMarkup, w')"
    using u by (simp add: main_run sample_monitor_def)
  from p have p0: "posts_of (trace w') = []" by (simp add: world0_def)
  from a r m p0 show ?thesis by simp
qed

section \<open>Notifications only for posts of today that match\<close>

text \<open>
  A run from \<open>world0\<close> that gets a page: the world in which the parser is called, and what
  the run does with the posts the parser returns.
\<close>

lemma monitor_posts_from_world0:
  assumes "get_reply E = Response 200 html" and "html \<noteq> []"
  shows "monitor_posts E self world0 =
           (case parse_board_posts E html
                   \<lparr>clock_reads = 1, post_calls = 0,
                    trace = [Print (Log_start (strftime_ymd_hms (now_at E 0))),
                             Print (Log_url (self_url self)),
                             Print (Log_keywords (self_keywords self)),
                             Print Log_today_only,
                             Http_get (self_url self)]\<rparr> of
              (Inl e, w4) \<Rightarrow> (Inl e, w4)
            | (Inr posts, w4) \<Rightarrow>
                (let w5 = say (Log_post_count (length posts)) w4
                 in if posts = [] then (Inr (), say Log_no_posts w5)
                    else
                      (case monitor_loop E self posts (0, 0, w5) of
                         (notifications_sent, today_posts_count, w6) \<Rightarrow>
                           (let w7 = say (Log_today_count today_posts_count) w6;
                                w8 = (if notifications_sent > 0
                                      then say (Log_sent_total notifications_sent) w7
                                      else say Log_no_match w7)
                            in (Inr (), say Log_done w8)))))"
proof -
  let ?w2 = "say Log_today_only
                      (say (Log_keywords (self_keywords self))
                        (say (Log_url (self_url self))
                          (say (Log_start (strftime_ymd_hms (now_at E (clock_reads world0))))
                             (world0\<lparr>clock_reads := Suc (clock_reads world0)\<rparr>))))"
  let ?w3 = "\<lparr>clock_reads = 1, post_calls = 0,
                    trace = [Print (Log_start (strftime_ymd_hms (now_at E 0))),
                             Print (Log_url (self_url self)),
                             Print (Log_keywords (self_keywords self)),
                             Print Log_today_only,
                             Http_get (self_url self)]\<rparr>"
  have e: "emit (Http_get (self_url self)) ?w2 = ?w3"
    by (simp add: say_def emit_def world0_def)
  have f: "fetch_board_content E self ?w2 = (Some html, ?w3)"
    using assms(1) e by (simp add: fetch_board_content_def Let_def)
  show ?thesis
    unfolding monitor_posts_def datetime_now_def using f assms(2) by (simp add: Let_def)
qed

lemma monitor_posts_loop:
  assumes "get_reply E = Response 200 html" and "html \<noteq> []"
    and "parse_board_posts E html
           \<lparr>clock_reads = 1, post_calls = 0,
            trace = [Print (Log_start (strftime_ymd_hms (now_at E 0))),
                     Print (Log_url (self_url self)),
                     Print (Log_keywords (self_keywords self)),
                     Print Log_today_only,
                     Http_get (self_url self)]\<rparr> = (Inr ps, w4)"
  shows "posts_of (trace (say (Log_post_count (length ps)) w4)) = []"
    and "matcher_calls_of (trace (say (Log_post_count (length ps)) w4)) = []"
    and "posts_of (trace (snd (monitor_posts E self world0)))
           = posts_of (trace (turn_world E self ps (say (Log_post_count (length ps)) w4) (length ps)))"
    and "matcher_calls_of (trace (snd (monitor_posts E self world0)))
           = matcher_calls_of (trace (turn_world E self ps (say (Log_post_count (length ps)) w4) (length ps)))"
proof -
  let ?w3 = "\<lparr>clock_reads = 1, post_calls = 0,
            trace = [Print (Log_start (strftime_ymd_hms (now_at E 0))),
                     Print (Log_url (self_url self)),
                     Print (Log_keywords (self_keywords self)),
                     Print Log_today_only,
                     Http_get (self_url self)]\<rparr>"
  let ?w5 = "say (Log_post_count (length ps)) w4"
  from parse_board_posts_trace [of E html ?w3] assms(3) have t4: "trace w4 = trace ?w3" by simp
  show p5: "posts_of (trace ?w5) = []" by (simp add: say_fields t4)
  show m5: "matcher_calls_of (trace ?w5) = []" by (simp add: say_fields t4)
  note mp = monitor_posts_from_world0 [OF assms(1,2), of self]
  show "posts_of (trace (snd (monitor_posts E self world0)))
           = posts_of (trace (turn_world E self ps ?w5 (length ps)))"
  proof (cases "ps = []")
    case True
    with mp assms(3) have "snd (monitor_posts E self world0) = say Log_no_posts ?w5"
      by (simp add: Let_def)
    then show ?thesis using True by (simp add: say_fields posts_of_append turn_world_0)
  next
    case False
    obtain ns6 tc6 w6 where ml: "monitor_loop E self ps (0, 0, ?w5) = (ns6, tc6, w6)"
      by (cases "monitor_loop E self ps (0, 0, ?w5)")
    with mp assms(3) False have "snd (monitor_posts E self world0) =
        say Log_done (if ns6 > 0 then say (Log_sent_total ns6) (say (Log_today_count tc6) w6)
                      else say Log_no_match (say (Log_today_count tc6) w6))"
      by (simp add: Let_def)
    then show ?thesis using ml by (simp add: say_fields posts_of_append turn_world_end)
  qed
  show "matcher_calls_of (trace (snd (monitor_posts E self world0)))
           = matcher_calls_of (trace (turn_world E self ps ?w5 (length ps)))"
  proof (cases "ps = []")
    case True
    with mp assms(3) have "snd (monitor_posts E self world0) = say Log_no_posts ?w5"
      by (simp add: Let_def)
    then show ?thesis using True by (simp add: say_fields matcher_calls_of_append turn_world_0)
  next
    case False
    obtain ns6 tc6 w6 where ml: "monitor_loop E self ps (0, 0, ?w5) = (ns6, tc6, w6)"
      by (cases "monitor_loop E self ps (0, 0, ?w5)")
    with mp assms(3) False have "snd (monitor_posts E self world0) =
        say Log_done (if ns6 > 0 then say (Log_sent_total ns6) (say (Log_today_count tc6) w6)
                      else say Log_no_match (say (Log_today_count tc6) w6))"
      by (simp add: Let_def)
    then show ?thesis using ml by (simp add: say_fields matcher_calls_of_append turn_world_end)
  qed
qed

lemma monitor_posts_no_loop:
  assumes "get_reply E = Transport_failure
           \<or> (\<exists>status_code body. get_reply E = Response status_code body \<and> (status_code \<noteq> 200 \<or> body = []))
           \<or> (\<exists>html e. get_reply E = Response 200 html \<and> beautiful_soup E html = Inl e)"
  shows "posts_of (trace (snd (monitor_posts E self world0))) = []
         \<and> matcher_calls_of (trace (snd (monitor_posts E self world0))) = []"
proof -
  have z: "posts_of (trace world0) = []" "matcher_calls_of (trace world0) = []"
    by (simp_all add: world0_def)
  from assms consider
      (none) "get_reply E = Transport_failure
           \<or> (\<exists>status_code body. get_reply E = Response status_code body \<and> (status_code \<noteq> 200 \<or> body = []))"
    | (raises) html e where "get_reply E = Response 200 html" "html \<noteq> []" "beautiful_soup E html = Inl e"
    by blast
  then show ?thesis
  proof cases
    case none
    from monitor_posts_no_content [OF none, of self world0] z show ?thesis by auto
  next
    case raises
    from monitor_posts_parser_raises [OF raises, of self world0] z show ?thesis by auto
  qed
qed

lemma process_post_clock:
  "clock_reads (snd (snd (process_post E self p (ns, tc, w))))
     = clock_reads w
       + (if is_today_post (now_at E (clock_reads w)) (PStr (date p))
             \<and> fst (check_keywords (py_lower E) self (title p))
          then 2 else 1)"
proof (cases "is_today_post (now_at E (clock_reads w)) (PStr (date p))")
  case False
  then show ?thesis by (simp add: process_post_skip)
next
  case True
  obtain b k where ck: "check_keywords (py_lower E) self (title p) = (b, k)"
    by (cases "check_keywords (py_lower E) self (title p)")
  show ?thesis
  proof (cases b)
    case False
    with ck True show ?thesis
      by (simp add: process_post_no_keyword emit_fields)
  next
    case b: True
    from b ck have ck': "check_keywords (py_lower E) self (title p) = (True, k)" by simp
    from process_post_keyword [OF True ck', of ns tc]
    obtain ok w1 where pp: "process_post E self p (ns, tc, w)
         = ((if ok then ns + 1 else ns), tc + 1, snd (send_webhook E self p k w1))"
      and c1: "clock_reads w1 = Suc (clock_reads w)"
      by blast
    show ?thesis
      by (simp add: pp c1 True ck' send_webhook_counters)
  qed
qed

lemma turn_clock:
  assumes "i < length ps"
  shows "clock_reads (turn_world E self ps w (Suc i))
           = clock_reads (turn_world E self ps w i)
             + (if is_today_post (now_at E (clock_reads (turn_world E self ps w i))) (PStr (date (ps ! i)))
                   \<and> fst (check_keywords (py_lower E) self (title (ps ! i)))
                then 2 else 1)"
  unfolding turn_world_Suc [OF assms] by (rule process_post_clock)

lemma midnight_env_fields:
  "now_at midnight_env n = (if n < 3 then late_evening else past_midnight)"
  "get_reply midnight_env = Response 200 (ascii ''<table>'')"
  "post_reply midnight_env n = Response 200 []"
  "py_lower midnight_env = ascii_lower"
  "py_digit midnight_env = ascii_digit"
  "beautiful_soup midnight_env html = Inr evening_soup"
  by (simp_all add: midnight_env_def)

lemma midnight_today:
  "is_today_post late_evening (PStr (ascii ''2024-05-01''))"
  "\<not> is_today_post past_midnight (PStr (ascii ''2024-05-01''))"
  by (simp_all add: is_today_post_def py_in_def strftime_ymd_def pad4_def pad2_def dg_def
      late_evening_def past_midnight_def ascii_def)

lemma sample_check:
  "check_keywords ascii_lower sample_monitor title_rally_notice = (True, Some kw_jangaein)"
  by (simp add: check_keywords_def sample_monitor_def SeoulMetroMonitor_def ascii_lower_def
      title_rally_notice_def kw_jangaein_def)

lemma sample_webhook_url: "self_webhook_url sample_monitor = ascii ''https://hook''"
  by (simp add: sample_monitor_def SeoulMetroMonitor_def)

lemma parse_evening_rows:
  "parse_row midnight_env linked_row w =
     (Some \<lparr>title = title_rally_notice, date = ascii ''2024-05-01'',
            link = ascii ''http://www.seoulmetro.co.kr/kr/view.do?id=1''\<rparr>, w)"
  "parse_row midnight_env example_row w =
     (Some \<lparr>title = title_rally_notice, date = ascii ''2024-05-01'', link = []\<rparr>, w)"
  by (simp_all add: parse_row_def linked_row_def example_row_def midnight_env_def
      title_rally_notice_def isdigit_def ascii_digit_def ascii_def cell_link_def startswith_def
      date_separators_def)

lemma parse_evening_board:
  "html \<noteq> [] \<Longrightarrow> parse_board_posts midnight_env html w = (Inr evening_posts, w)"
proof -
  assume h: "html \<noteq> []"
  have bs: "beautiful_soup midnight_env html = Inr evening_soup" by (rule midnight_env_fields)
  have rows: "select_rows evening_soup possible_selectors = [linked_row, example_row]"
    by (simp add: possible_selectors_def evening_soup_def linked_row_def)
  have "parse_rows midnight_env [linked_row, example_row] [] w = (evening_posts, w)"
    by (simp add: parse_evening_rows evening_posts_def)
  with h bs rows show ?thesis
    by (simp add: parse_board_posts_def)
qed

text \<open>
  C1. Take a run of \<open>monitor_posts\<close> from the initial world in which the board answers
  200 with a page and the parser returns the posts \<open>ps\<close>; \<open>w5\<close> is the world in which the
  loop over \<open>ps\<close> starts. The POSTs and the matcher calls of the whole run are those of
  the loop, and the loop adds them turn by turn. The turn of the post \<open>ps ! i\<close> checks the
  date of that post against the reading of the clock with the index
  \<open>clock_reads (turn_world E self ps w5 i)\<close>, the first reading of that turn. If the check
  fails, the turn changes nothing in the world but the number of clock reads: nothing is
  printed, the matcher is not called and no POST is made. The matcher is called in that
  turn exactly when the check passes, and a POST is made in that turn exactly when the
  check passes and \<open>check_keywords\<close> on the title of that post reports a match; the POST
  carries that post, the reported keyword, and as its timestamp the reading of the clock
  that follows the check. A turn that makes a POST reads the clock twice and every other
  turn reads it once, which fixes the reading that each turn checks against. So every
  POST and every matcher call of the run belongs to a post that passed the today check of
  its own turn. A run in which the fetch gives no content or the parser raises makes no
  POST and no matcher call.
\<close>

theorem monitor_posts_gate:
  "(get_reply E = Response 200 html \<and> html \<noteq> []
      \<and> parse_board_posts E html
           \<lparr>clock_reads = 1, post_calls = 0,
            trace = [Print (Log_start (strftime_ymd_hms (now_at E 0))),
                     Print (Log_url (self_url self)),
                     Print (Log_keywords (self_keywords self)),
                     Print Log_today_only,
                     Http_get (self_url self)]\<rparr> = (Inr ps, w4)
      \<and> w5 = say (Log_post_count (length ps)) w4
    \<longrightarrow>
      posts_of (trace w5) = [] \<and> matcher_calls_of (trace w5) = []
      \<and> turn_world E self ps w5 0 = w5
      \<and> posts_of (trace (snd (monitor_posts E self world0)))
           = posts_of (trace (turn_world E self ps w5 (length ps)))
      \<and> matcher_calls_of (trace (snd (monitor_posts E self world0)))
           = matcher_calls_of (trace (turn_world E self ps w5 (length ps)))
      \<and> (\<forall>i < length ps.
            (\<not> is_today_post (now_at E (clock_reads (turn_world E self ps w5 i))) (PStr (date (ps ! i)))
               \<longrightarrow> turn_world E self ps w5 (Suc i)
                     = (turn_world E self ps w5 i)
                         \<lparr>clock_reads := Suc (clock_reads (turn_world E self ps w5 i))\<rparr>)
            \<and> matcher_calls_of (trace (turn_world E self ps w5 (Suc i)))
                = matcher_calls_of (trace (turn_world E self ps w5 i))
                  @ (if is_today_post (now_at E (clock_reads (turn_world E self ps w5 i)))
                          (PStr (date (ps ! i)))
                     then [ps ! i] else [])
            \<and> posts_of (trace (turn_world E self ps w5 (Suc i)))
                = posts_of (trace (turn_world E self ps w5 i))
                  @ (if is_today_post (now_at E (clock_reads (turn_world E self ps w5 i)))
                          (PStr (date (ps ! i)))
                        \<and> fst (check_keywords (py_lower E) self (title (ps ! i)))
                     then [(self_webhook_url self,
                            \<lparr>title = title (ps ! i), date = date (ps ! i), link = link (ps ! i),
                             keyword = snd (check_keywords (py_lower E) self (title (ps ! i))),
                             message = webhook_message
                                         (snd (check_keywords (py_lower E) self (title (ps ! i))))
                                         (title (ps ! i)),
                             timestamp = isoformat
                                 (now_at E (Suc (clock_reads (turn_world E self ps w5 i))))\<rparr>)]
                     else [])
            \<and> clock_reads (turn_world E self ps w5 (Suc i))
                = clock_reads (turn_world E self ps w5 i)
                  + (if is_today_post (now_at E (clock_reads (turn_world E self ps w5 i)))
                          (PStr (date (ps ! i)))
                        \<and> fst (check_keywords (py_lower E) self (title (ps ! i)))
                     then 2 else 1))
      \<and> (\<forall>x \<in> set (posts_of (trace (snd (monitor_posts E self world0)))).
            \<exists>i < length ps.
              is_today_post (now_at E (clock_reads (turn_world E self ps w5 i))) (PStr (date (ps ! i)))
              \<and> check_keywords (py_lower E) self (title (ps ! i)) = (True, keyword (snd x))
              \<and> title (snd x) = title (ps ! i) \<and> date (snd x) = date (ps ! i)
              \<and> link (snd x) = link (ps ! i)
              \<and> timestamp (snd x)
                  = isoformat (now_at E (Suc (clock_reads (turn_world E self ps w5 i))))
              \<and> fst x = self_webhook_url self)
      \<and> (\<forall>q \<in> set (matcher_calls_of (trace (snd (monitor_posts E self world0)))).
            \<exists>i < length ps.
              q = ps ! i
              \<and> is_today_post (now_at E (clock_reads (turn_world E self ps w5 i)))
                   (PStr (date (ps ! i)))))
   \<and> (get_reply E = Transport_failure
        \<or> (\<exists>status_code body. get_reply E = Response status_code body
              \<and> (status_code \<noteq> 200 \<or> body = []))
        \<or> (\<exists>html e. get_reply E = Response 200 html \<and> beautiful_soup E html = Inl e)
      \<longrightarrow> posts_of (trace (snd (monitor_posts E self world0))) = []
          \<and> matcher_calls_of (trace (snd (monitor_posts E self world0))) = [])"
proof (rule conjI)
  show "get_reply E = Transport_failure
        \<or> (\<exists>status_code body. get_reply E = Response status_code body
              \<and> (status_code \<noteq> 200 \<or> body = []))
        \<or> (\<exists>html e. get_reply E = Response 200 html \<and> beautiful_soup E html = Inl e)
      \<longrightarrow> posts_of (trace (snd (monitor_posts E self world0))) = []
          \<and> matcher_calls_of (trace (snd (monitor_posts E self world0))) = []"
    by (rule impI) (rule monitor_posts_no_loop)
next
  let ?w3 = "\<lparr>clock_reads = 1, post_calls = 0,
            trace = [Print (Log_start (strftime_ymd_hms (now_at E 0))),
                     Print (Log_url (self_url self)),
                     Print (Log_keywords (self_keywords self)),
                     Print Log_today_only,
                     Http_get (self_url self)]\<rparr>"
  let ?w5 = "say (Log_post_count (length ps)) w4"
  let ?run = "snd (monitor_posts E self world0)"
  {
    assume g: "get_reply E = Response 200 html" and h: "html \<noteq> []"
      and pb: "parse_board_posts E html ?w3 = (Inr ps, w4)"
    note L = monitor_posts_loop [OF g h pb]
    have c1: "posts_of (trace ?w5) = []" by (rule L(1))
    have c2: "matcher_calls_of (trace ?w5) = []" by (rule L(2))
    have c3: "turn_world E self ps ?w5 0 = ?w5" by (rule turn_world_0)
    have c4: "posts_of (trace ?run) = posts_of (trace (turn_world E self ps ?w5 (length ps)))"
      by (rule L(3))
    have c5: "matcher_calls_of (trace ?run)
        = matcher_calls_of (trace (turn_world E self ps ?w5 (length ps)))"
      by (rule L(4))
    have c6: "\<forall>i < length ps.
            (\<not> is_today_post (now_at E (clock_reads (turn_world E self ps ?w5 i))) (PStr (date (ps ! i)))
               \<longrightarrow> turn_world E self ps ?w5 (Suc i)
                     = (turn_world E self ps ?w5 i)
                         \<lparr>clock_reads := Suc (clock_reads (turn_world E self ps ?w5 i))\<rparr>)
            \<and> matcher_calls_of (trace (turn_world E self ps ?w5 (Suc i)))
                = matcher_calls_of (trace (turn_world E self ps ?w5 i))
                  @ (if is_today_post (now_at E (clock_reads (turn_world E self ps ?w5 i)))
                          (PStr (date (ps ! i)))
                     then [ps ! i] else [])
            \<and> posts_of (trace (turn_world E self ps ?w5 (Suc i)))
                = posts_of (trace (turn_world E self ps ?w5 i))
                  @ (if is_today_post (now_at E (clock_reads (turn_world E self ps ?w5 i)))
                          (PStr (date (ps ! i)))
                        \<and> fst (check_keywords (py_lower E) self (title (ps ! i)))
                     then [(self_webhook_url self,
                            \<lparr>title = title (ps ! i), date = date (ps ! i), link = link (ps ! i),
                             keyword = snd (check_keywords (py_lower E) self (title (ps ! i))),
                             message = webhook_message
                                         (snd (check_keywords (py_lower E) self (title (ps ! i))))
                                         (title (ps ! i)),
                             timestamp = isoformat
                                 (now_at E (Suc (clock_reads (turn_world E self ps ?w5 i))))\<rparr>)]
                     else [])
            \<and> clock_reads (turn_world E self ps ?w5 (Suc i))
                = clock_reads (turn_world E self ps ?w5 i)
                  + (if is_today_post (now_at E (clock_reads (turn_world E self ps ?w5 i)))
                          (PStr (date (ps ! i)))
                        \<and> fst (check_keywords (py_lower E) self (title (ps ! i)))
                     then 2 else 1)"
    proof (intro allI impI)
      fix i assume i: "i < length ps"
      show "(\<not> is_today_post (now_at E (clock_reads (turn_world E self ps ?w5 i))) (PStr (date (ps ! i)))
               \<longrightarrow> turn_world E self ps ?w5 (Suc i)
                     = (turn_world E self ps ?w5 i)
                         \<lparr>clock_reads := Suc (clock_reads (turn_world E self ps ?w5 i))\<rparr>)
            \<and> matcher_calls_of (trace (turn_world E self ps ?w5 (Suc i)))
                = matcher_calls_of (trace (turn_world E self ps ?w5 i))
                  @ (if is_today_post (now_at E (clock_reads (turn_world E self ps ?w5 i)))
                          (PStr (date (ps ! i)))
                     then [ps ! i] else [])
            \<and> posts_of (trace (turn_world E self ps ?w5 (Suc i)))
                = posts_of (trace (turn_world E self ps ?w5 i))
                  @ (if is_today_post (now_at E (clock_reads (turn_world E self ps ?w5 i)))
                          (PStr (date (ps ! i)))
                        \<and> fst (check_keywords (py_lower E) self (title (ps ! i)))
                     then [(self_webhook_url self,
                            \<lparr>title = title (ps ! i), date = date (ps ! i), link = link (ps ! i),
                             keyword = snd (check_keywords (py_lower E) self (title (ps ! i))),
                             message = webhook_message
                                         (snd (check_keywords (py_lower E) self (title (ps ! i))))
                                         (title (ps ! i)),
                             timestamp = isoformat
                                 (now_at E (Suc (clock_reads (turn_world E self ps ?w5 i))))\<rparr>)]
                     else [])
            \<and> clock_reads (turn_world E self ps ?w5 (Suc i))
                = clock_reads (turn_world E self ps ?w5 i)
                  + (if is_today_post (now_at E (clock_reads (turn_world E self ps ?w5 i)))
                          (PStr (date (ps ! i)))
                        \<and> fst (check_keywords (py_lower E) self (title (ps ! i)))
                     then 2 else 1)"
      proof (intro conjI impI)
        assume "\<not> is_today_post (now_at E (clock_reads (turn_world E self ps ?w5 i))) (PStr (date (ps ! i)))"
        with i show "turn_world E self ps ?w5 (Suc i)
                     = (turn_world E self ps ?w5 i)
                         \<lparr>clock_reads := Suc (clock_reads (turn_world E self ps ?w5 i))\<rparr>"
          by (rule turn_skip)
      next
        show "matcher_calls_of (trace (turn_world E self ps ?w5 (Suc i)))
                = matcher_calls_of (trace (turn_world E self ps ?w5 i))
                  @ (if is_today_post (now_at E (clock_reads (turn_world E self ps ?w5 i)))
                          (PStr (date (ps ! i)))
                     then [ps ! i] else [])"
          using i by (rule turn_calls)
      next
        show "posts_of (trace (turn_world E self ps ?w5 (Suc i)))
                = posts_of (trace (turn_world E self ps ?w5 i))
                  @ (if is_today_post (now_at E (clock_reads (turn_world E self ps ?w5 i)))
                          (PStr (date (ps ! i)))
                        \<and> fst (check_keywords (py_lower E) self (title (ps ! i)))
                     then [(self_webhook_url self,
                            \<lparr>title = title (ps ! i), date = date (ps ! i), link = link (ps ! i),
                             keyword = snd (check_keywords (py_lower E) self (title (ps ! i))),
                             message = webhook_message
                                         (snd (check_keywords (py_lower E) self (title (ps ! i))))
                                         (title (ps ! i)),
                             timestamp = isoformat
                                 (now_at E (Suc (clock_reads (turn_world E self ps ?w5 i))))\<rparr>)]
                     else [])"
          using i by (rule turn_posts)
      next
        show "clock_reads (turn_world E self ps ?w5 (Suc i))
                = clock_reads (turn_world E self ps ?w5 i)
                  + (if is_today_post (now_at E (clock_reads (turn_world E self ps ?w5 i)))
                          (PStr (date (ps ! i)))
                        \<and> fst (check_keywords (py_lower E) self (title (ps ! i)))
                     then 2 else 1)"
          using i by (rule turn_clock)
      qed
    qed
    have c7: "\<forall>x \<in> set (posts_of (trace ?run)).
            \<exists>i < length ps.
              is_today_post (now_at E (clock_reads (turn_world E self ps ?w5 i))) (PStr (date (ps ! i)))
              \<and> check_keywords (py_lower E) self (title (ps ! i)) = (True, keyword (snd x))
              \<and> title (snd x) = title (ps ! i) \<and> date (snd x) = date (ps ! i)
              \<and> link (snd x) = link (ps ! i)
              \<and> timestamp (snd x)
                  = isoformat (now_at E (Suc (clock_reads (turn_world E self ps ?w5 i))))
              \<and> fst x = self_webhook_url self"
      unfolding c4 by (intro ballI turn_posts_origin [OF c1]) simp_all
    have c8: "\<forall>q \<in> set (matcher_calls_of (trace ?run)).
            \<exists>i < length ps.
              q = ps ! i
              \<and> is_today_post (now_at E (clock_reads (turn_world E self ps ?w5 i)))
                   (PStr (date (ps ! i)))"
      unfolding c5 by (intro ballI turn_calls_origin [OF c2]) simp_all
    note c1 c2 c3 c4 c5 c6 c7 c8
  }
  note facts = this
  show "get_reply E = Response 200 html \<and> html \<noteq> []
      \<and> parse_board_posts E html ?w3 = (Inr ps, w4)
      \<and> w5 = ?w5
    \<longrightarrow>
      posts_of (trace w5) = [] \<and> matcher_calls_of (trace w5) = []
      \<and> turn_world E self ps w5 0 = w5
      \<and> posts_of (trace ?run) = posts_of (trace (turn_world E self ps w5 (length ps)))
      \<and> matcher_calls_of (trace ?run)
           = matcher_calls_of (trace (turn_world E self ps w5 (length ps)))
      \<and> (\<forall>i < length ps.
            (\<not> is_today_post (now_at E (clock_reads (turn_world E self ps w5 i))) (PStr (date (ps ! i)))
               \<longrightarrow> turn_world E self ps w5 (Suc i)
                     = (turn_world E self ps w5 i)
                         \<lparr>clock_reads := Suc (clock_reads (turn_world E self ps w5 i))\<rparr>)
            \<and> matcher_calls_of (trace (turn_world E self ps w5 (Suc i)))
                = matcher_calls_of (trace (turn_world E self ps w5 i))
                  @ (if is_today_post (now_at E (clock_reads (turn_world E self ps w5 i)))
                          (PStr (date (ps ! i)))
                     then [ps ! i] else [])
            \<and> posts_of (trace (turn_world E self ps w5 (Suc i)))
                = posts_of (trace (turn_world E self ps w5 i))
                  @ (if is_today_post (now_at E (clock_reads (turn_world E self ps w5 i)))
                          (PStr (date (ps ! i)))
                        \<and> fst (check_keywords (py_lower E) self (title (ps ! i)))
                     then [(self_webhook_url self,
                            \<lparr>title = title (ps ! i), date = date (ps ! i), link = link (ps ! i),
                             keyword = snd (check_keywords (py_lower E) self (title (ps ! i))),
                             message = webhook_message
                                         (snd (check_keywords (py_lower E) self (title (ps ! i))))
                                         (title (ps ! i)),
                             timestamp = isoformat
                                 (now_at E (Suc (clock_reads (turn_world E self ps w5 i))))\<rparr>)]
                     else [])
            \<and> clock_reads (turn_world E self ps w5 (Suc i))
                = clock_reads (turn_world E self ps w5 i)
                  + (if is_today_post (now_at E (clock_reads (turn_world E self ps w5 i)))
                          (PStr (date (ps ! i)))
                        \<and> fst (check_keywords (py_lower E) self (title (ps ! i)))
                     then 2 else 1))
      \<and> (\<forall>x \<in> set (posts_of (trace ?run)).
            \<exists>i < length ps.
              is_today_post (now_at E (clock_reads (turn_world E self ps w5 i))) (PStr (date (ps ! i)))
              \<and> check_keywords (py_lower E) self (title (ps ! i)) = (True, keyword (snd x))
              \<and> title (snd x) = title (ps ! i) \<and> date (snd x) = date (ps ! i)
              \<and> link (snd x) = link (ps ! i)
              \<and> timestamp (snd x)
                  = isoformat (now_at E (Suc (clock_reads (turn_world E self ps w5 i))))
              \<and> fst x = self_webhook_url self)
      \<and> (\<forall>q \<in> set (matcher_calls_of (trace ?run)).
            \<exists>i < length ps.
              q = ps ! i
              \<and> is_today_post (now_at E (clock_reads (turn_world E self ps w5 i)))
                   (PStr (date (ps ! i))))"
  proof (rule impI, elim conjE)
    assume g: "get_reply E = Response 200 html" and h: "html \<noteq> []"
      and pb: "parse_board_posts E html ?w3 = (Inr ps, w4)"
      and w5: "w5 = ?w5"
    show "posts_of (trace w5) = [] \<and> matcher_calls_of (trace w5) = []
      \<and> turn_world E self ps w5 0 = w5
      \<and> posts_of (trace ?run) = posts_of (trace (turn_world E self ps w5 (length ps)))
      \<and> matcher_calls_of (trace ?run)
           = matcher_calls_of (trace (turn_world E self ps w5 (length ps)))
      \<and> (\<forall>i < length ps.
            (\<not> is_today_post (now_at E (clock_reads (turn_world E self ps w5 i))) (PStr (date (ps ! i)))
               \<longrightarrow> turn_world E self ps w5 (Suc i)
                     = (turn_world E self ps w5 i)
                         \<lparr>clock_reads := Suc (clock_reads (turn_world E self ps w5 i))\<rparr>)
            \<and> matcher_calls_of (trace (turn_world E self ps w5 (Suc i)))
                = matcher_calls_of (trace (turn_world E self ps w5 i))
                  @ (if is_today_post (now_at E (clock_reads (turn_world E self ps w5 i)))
                          (PStr (date (ps ! i)))
                     then [ps ! i] else [])
            \<and> posts_of (trace (turn_world E self ps w5 (Suc i)))
                = posts_of (trace (turn_world E self ps w5 i))
                  @ (if is_today_post (now_at E (clock_reads (turn_world E self ps w5 i)))
                          (PStr (date (ps ! i)))
                        \<and> fst (check_keywords (py_lower E) self (title (ps ! i)))
                     then [(self_webhook_url self,
                            \<lparr>title = title (ps ! i), date = date (ps ! i), link = link (ps ! i),
                             keyword = snd (check_keywords (py_lower E) self (title (ps ! i))),
                             message = webhook_message
                                         (snd (check_keywords (py_lower E) self (title (ps ! i))))
                                         (title (ps ! i)),
                             timestamp = isoformat
                                 (now_at E (Suc (clock_reads (turn_world E self ps w5 i))))\<rparr>)]
                     else [])
            \<and> clock_reads (turn_world E self ps w5 (Suc i))
                = clock_reads (turn_world E self ps w5 i)
                  + (if is_today_post (now_at E (clock_reads (turn_world E self ps w5 i)))
                          (PStr (date (ps ! i)))
                        \<and> fst (check_keywords (py_lower E) self (title (ps ! i)))
                     then 2 else 1))
      \<and> (\<forall>x \<in> set (posts_of (trace ?run)).
            \<exists>i < length ps.
              is_today_post (now_at E (clock_reads (turn_world E self ps w5 i))) (PStr (date (ps ! i)))
              \<and> check_keywords (py_lower E) self (title (ps ! i)) = (True, keyword (snd x))
              \<and> title (snd x) = title (ps ! i) \<and> date (snd x) = date (ps ! i)
              \<and> link (snd x) = link (ps ! i)
              \<and> timestamp (snd x)
                  = isoformat (now_at E (Suc (clock_reads (turn_world E self ps w5 i))))
              \<and> fst x = self_webhook_url self)
      \<and> (\<forall>q \<in> set (matcher_calls_of (trace ?run)).
            \<exists>i < length ps.
              q = ps ! i
              \<and> is_today_post (now_at E (clock_reads (turn_world E self ps w5 i)))
                   (PStr (date (ps ! i))))"
      unfolding w5
      by (intro conjI [OF facts(1) [OF g h pb]] conjI [OF facts(2) [OF g h pb]]
          conjI [OF facts(3) [OF g h pb]] conjI [OF facts(4) [OF g h pb]]
          conjI [OF facts(5) [OF g h pb]] conjI [OF facts(6) [OF g h pb]]
          conjI [OF facts(7) [OF g h pb]] facts(8) [OF g h pb])
  qed
qed

theorem monitor_posts_gate_witness:
  "get_reply midnight_env = Response 200 (ascii ''<table>'')
   \<and> parse_board_posts midnight_env (ascii ''<table>'') midnight_fetched
        = (Inr evening_posts, midnight_fetched)
   \<and> length evening_posts = 2
   \<and> date (evening_posts ! 0) = ascii ''2024-05-01''
   \<and> date (evening_posts ! 1) = ascii ''2024-05-01''
   \<and> check_keywords (py_lower midnight_env) sample_monitor (title (evening_posts ! 0))
        = (True, Some kw_jangaein)
   \<and> check_keywords (py_lower midnight_env) sample_monitor (title (evening_posts ! 1))
        = (True, Some kw_jangaein)
   \<and> clock_reads (turn_world midnight_env sample_monitor evening_posts midnight_start 0) = 1
   \<and> now_at midnight_env 1 = late_evening \<and> now_at midnight_env 2 = late_evening
   \<and> is_today_post late_evening (PStr (ascii ''2024-05-01''))
   \<and> posts_of (trace (turn_world midnight_env sample_monitor evening_posts midnight_start 1))
        = [(ascii ''https://hook'', midnight_body)]
   \<and> matcher_calls_of (trace (turn_world midnight_env sample_monitor evening_posts midnight_start 1))
        = [evening_posts ! 0]
   \<and> clock_reads (turn_world midnight_env sample_monitor evening_posts midnight_start 1) = 3
   \<and> now_at midnight_env 3 = past_midnight
   \<and> \<not> is_today_post past_midnight (PStr (ascii ''2024-05-01''))
   \<and> turn_world midnight_env sample_monitor evening_posts midnight_start 2
        = (turn_world midnight_env sample_monitor evening_posts midnight_start 1)\<lparr>clock_reads := 4\<rparr>
   \<and> posts_of (trace (snd (monitor_posts midnight_env sample_monitor world0)))
        = [(ascii ''https://hook'', midnight_body)]
   \<and> matcher_calls_of (trace (snd (monitor_posts midnight_env sample_monitor world0)))
        = [evening_posts ! 0]"
proof -
  let ?E = midnight_env
  let ?m = sample_monitor
  let ?tw = "turn_world midnight_env sample_monitor evening_posts midnight_start"
  let ?run = "snd (monitor_posts midnight_env sample_monitor world0)"
  have g: "get_reply ?E = Response 200 (ascii ''<table>'')" by (rule midnight_env_fields)
  have h: "ascii ''<table>'' \<noteq> []" by (simp add: ascii_def)
  have pb: "parse_board_posts ?E (ascii ''<table>'') midnight_fetched
              = (Inr evening_posts, midnight_fetched)"
    by (rule parse_evening_board [OF h])
  have pb': "parse_board_posts ?E (ascii ''<table>'')
           \<lparr>clock_reads = 1, post_calls = 0,
            trace = [Print (Log_start (strftime_ymd_hms (now_at ?E 0))),
                     Print (Log_url (self_url ?m)),
                     Print (Log_keywords (self_keywords ?m)),
                     Print Log_today_only,
                     Http_get (self_url ?m)]\<rparr> = (Inr evening_posts, midnight_fetched)"
    using pb unfolding midnight_fetched_def .
  have w5: "midnight_start = say (Log_post_count (length evening_posts)) midnight_fetched"
    by (rule midnight_start_def)
  have len: "length evening_posts = 2" by (simp add: evening_posts_def)
  have d0: "date (evening_posts ! 0) = ascii ''2024-05-01''"
    and d1: "date (evening_posts ! 1) = ascii ''2024-05-01''"
    and t0: "title (evening_posts ! 0) = title_rally_notice"
    and t1: "title (evening_posts ! 1) = title_rally_notice"
    and l0: "link (evening_posts ! 0) = ascii ''http://www.seoulmetro.co.kr/kr/view.do?id=1''"
    by (simp_all add: evening_posts_def)
  have k0: "check_keywords (py_lower ?E) ?m (title (evening_posts ! 0)) = (True, Some kw_jangaein)"
    and k1: "check_keywords (py_lower ?E) ?m (title (evening_posts ! 1)) = (True, Some kw_jangaein)"
    unfolding t0 t1 midnight_env_fields(4) by (rule sample_check)+
  have n1: "now_at ?E 1 = late_evening" and n2: "now_at ?E 2 = late_evening"
    and n3: "now_at ?E 3 = past_midnight"
    by (simp_all add: midnight_env_fields)
  have i0: "0 < length evening_posts" and i1: "1 < length evening_posts"
    by (simp_all add: len)
  note G = monitor_posts_gate [of ?E "ascii ''<table>''" ?m evening_posts midnight_fetched
      midnight_start, THEN conjunct1, THEN mp, OF conjI [OF g conjI [OF h conjI [OF pb' w5]]]]
  note p5 = G [THEN conjunct1]
  note m5 = G [THEN conjunct2, THEN conjunct1]
  note s0 = G [THEN conjunct2, THEN conjunct2, THEN conjunct1]
  note pr = G [THEN conjunct2, THEN conjunct2, THEN conjunct2, THEN conjunct1]
  note mr = G [THEN conjunct2, THEN conjunct2, THEN conjunct2, THEN conjunct2, THEN conjunct1]
  note tu = G [THEN conjunct2, THEN conjunct2, THEN conjunct2, THEN conjunct2, THEN conjunct2,
      THEN conjunct1]
  note tu0 = mp [OF spec [OF tu, of 0] i0]
  note tu1 = mp [OF spec [OF tu, of 1] i1]
  have c0: "clock_reads (?tw 0) = 1"
    unfolding s0 by (simp add: midnight_start_def midnight_fetched_def say_fields)
  have today0: "is_today_post (now_at ?E (clock_reads (?tw 0))) (PStr (date (evening_posts ! 0)))"
    unfolding c0 n1 d0 by (rule midnight_today)
  have p0: "posts_of (trace (?tw 0)) = []" unfolding s0 by (rule p5)
  have m0: "matcher_calls_of (trace (?tw 0)) = []" unfolding s0 by (rule m5)
  from tu0 [THEN conjunct2, THEN conjunct2, THEN conjunct1]
  have p1: "posts_of (trace (?tw 1)) = [(ascii ''https://hook'', midnight_body)]"
    using today0 by (simp add: p0 k0 [unfolded t0] c0 midnight_env_fields(1) t0 d0 l0 sample_webhook_url midnight_body_def)
  from tu0 [THEN conjunct2, THEN conjunct1]
  have m1: "matcher_calls_of (trace (?tw 1)) = [evening_posts ! 0]"
    using today0 by (simp add: m0)
  from tu0 [THEN conjunct2, THEN conjunct2, THEN conjunct2]
  have c1: "clock_reads (?tw 1) = 3"
    using today0 by (simp add: k0 c0)
  have today1: "\<not> is_today_post (now_at ?E (clock_reads (?tw 1))) (PStr (date (evening_posts ! 1)))"
    unfolding c1 n3 d1 by (rule midnight_today)
  from mp [OF tu1 [THEN conjunct1] today1]
  have w2: "?tw 2 = (?tw 1)\<lparr>clock_reads := 4\<rparr>"
    by (simp add: c1 [unfolded One_nat_def] numeral_2_eq_2)
  have p2: "posts_of (trace (?tw 2)) = [(ascii ''https://hook'', midnight_body)]"
    unfolding w2 by (simp add: p1 [unfolded One_nat_def])
  have m2: "matcher_calls_of (trace (?tw 2)) = [evening_posts ! 0]"
    unfolding w2 by (simp add: m1 [unfolded One_nat_def])
  have prun: "posts_of (trace ?run) = [(ascii ''https://hook'', midnight_body)]"
    using pr p2 by (simp add: len)
  have mrun: "matcher_calls_of (trace ?run) = [evening_posts ! 0]"
    using mr m2 by (simp add: len)
  show ?thesis
    by (intro conjI g pb len d0 d1 k0 k1 c0 n1 n2 midnight_today p1 m1 c1 n3 w2 prun mrun)
qed

end
